theory Spec2Isabelle
  imports Complex_Main "HOL-Library.Char_ord" "HOL-Library.List_Lexorder"
begin

section \<open>The updater bootstrap (src/updater/bootstrap.js)\<close>

text \<open>
  The bootstrap checks the remote version, passes the staged-rollout gate, downloads the
  updater and spawns it. Every effect of the JavaScript is explicit here: the file system
  and the module-level \<open>statusWindow\<close> are fields of a state record, every call that
  reaches the outside (HTTP request, file-system call, window, child process,
  \<open>console.log\<close>) appends an event to a trace, and what the outside answers is a field of
  a \<open>world\<close> record. An awaited call that throws or rejects returns the \<open>Inl\<close> of a
  sum; a promise that the program hands on is a value of the type \<open>promise\<close>.
\<close>

subsection \<open>Paths, errors, events\<close>

text \<open>
  A path is the list of its components, that is, what \<open>dirPath.split(path.sep)\<close> yields.
  \<open>path.join(a, 'rolls', v)\<close> is then \<open>a @ [''rolls'', v]\<close>, \<open>path.dirname\<close> is
  \<open>butlast\<close> and \<open>path.resolve(dir, name)\<close> of an absolute \<open>dir\<close> is \<open>dir @ [name]\<close>.
\<close>

type_synonym path = "string list"

datatype errno = EEXIST | ENOENT | EISDIR

datatype error =
    TransportFailure
  | TypeError string
  | SyntaxError
  | InvalidVersion
  | FsError errno
  | FetchFailed nat
  | SpawnFailed

text \<open>The lines the program writes with \<open>console.log\<close>.\<close>

datatype log_line =
    RollCacheNotFound
  | NoChanceFile
  | ChanceIs "int option"
  | YouRolled int
  | FailedToFetchVersion nat
  | FailedToFetchLatest
  | AlreadyLatest
  | LatestIsLess
  | FailedLottery
  | UpdaterArgs "string list"
  | Caught error

text \<open>
  The three places that send a request: \<open>getVersion\<close>, \<open>checkChance\<close> and
  \<open>fetchUpdater\<close>. An event records the place and the \<open>uri\<close> asked for.
\<close>

datatype endpoint = VersionEndpoint | ChanceEndpoint | BinaryEndpoint

datatype event =
    HttpGet endpoint string
  | FsRead path
  | FsMkdir path
  | FsWrite path string
  | FsOpenWrite path
  | Log log_line
  | WindowCreated
  | WindowClosed
  | Spawned path "string list" path
  | UnhandledRejection error
  | UncaughtException error

text \<open>
  A promise that the program builds with \<open>new Promise\<close> settles only when one of the
  callbacks the source registers runs; \<open>Pending\<close> is the promise that never settles.
\<close>

datatype 'a promise = Resolved 'a | Rejected error | Pending

subsection \<open>Semantic versions\<close>

text \<open>
  Modelled from the spec: the \<open>semver\<close> package is not part of the repository. The spec
  names "standard semantic-version ordering (major.minor.patch, optional pre-release
  precedence)"; the definitions follow the package's \<open>compareIdentifiers\<close>,
  \<open>compareMain\<close>, \<open>comparePre\<close> and \<open>compare\<close>. A parsed version has its three
  numbers and its pre-release identifiers; an identifier is a number or a string with a
  character that is not a digit. Build metadata takes no part in the comparison.
\<close>

datatype ident = Numeric nat | Alnum string

record semver =
  major :: nat
  minor :: nat
  patch :: nat
  prerelease :: "ident list"

fun compareIdentifiers :: "ident \<Rightarrow> ident \<Rightarrow> int" where
  "compareIdentifiers (Numeric a) (Numeric b) = (if a < b then -1 else if b < a then 1 else 0)"
| "compareIdentifiers (Numeric a) (Alnum b) = -1"
| "compareIdentifiers (Alnum a) (Numeric b) = 1"
| "compareIdentifiers (Alnum a) (Alnum b) = (if a < b then -1 else if b < a then 1 else 0)"

definition compareMain :: "semver \<Rightarrow> semver \<Rightarrow> int" where
  "compareMain a b =
     (let c1 = compareIdentifiers (Numeric (major a)) (Numeric (major b));
          c2 = compareIdentifiers (Numeric (minor a)) (Numeric (minor b));
          c3 = compareIdentifiers (Numeric (patch a)) (Numeric (patch b))
      in if c1 \<noteq> 0 then c1 else if c2 \<noteq> 0 then c2 else c3)"

fun comparePre_loop :: "ident list \<Rightarrow> ident list \<Rightarrow> int" where
  "comparePre_loop [] [] = 0"
| "comparePre_loop (a # as) [] = 1"
| "comparePre_loop [] (b # bs) = -1"
| "comparePre_loop (a # as) (b # bs) =
     (if a = b then comparePre_loop as bs else compareIdentifiers a b)"

definition comparePre :: "semver \<Rightarrow> semver \<Rightarrow> int" where
  "comparePre a b =
     (if prerelease a \<noteq> [] \<and> prerelease b = [] then -1
      else if prerelease a = [] \<and> prerelease b \<noteq> [] then 1
      else if prerelease a = [] \<and> prerelease b = [] then 0
      else comparePre_loop (prerelease a) (prerelease b))"

definition compare :: "semver \<Rightarrow> semver \<Rightarrow> int" where
  "compare a b = (let m = compareMain a b in if m \<noteq> 0 then m else comparePre a b)"

text \<open>
  A JavaScript value where the program expects a version string: \<open>Falsy\<close> is
  \<open>undefined\<close>, \<open>null\<close>, the empty string and the like; \<open>Invalid\<close> is a truthy value
  that \<open>new SemVer\<close> rejects with a \<open>TypeError\<close>; \<open>Valid raw v\<close> is the string \<open>raw\<close>
  that parses to \<open>v\<close>.
\<close>

datatype js_version = Falsy | Invalid | Valid string semver

definition js_falsy :: "js_version \<Rightarrow> bool" where
  "js_falsy v = (case v of Falsy \<Rightarrow> True | Invalid \<Rightarrow> False | Valid raw p \<Rightarrow> False)"

definition semver_compare :: "js_version \<Rightarrow> js_version \<Rightarrow> error + int" where
  "semver_compare a b =
     (case a of
        Valid ra x \<Rightarrow> (case b of Valid rb y \<Rightarrow> Inr (compare x y) | _ \<Rightarrow> Inl InvalidVersion)
      | _ \<Rightarrow> Inl InvalidVersion)"

definition semver_eq :: "js_version \<Rightarrow> js_version \<Rightarrow> error + bool" where
  "semver_eq a b = (case semver_compare a b of Inl e \<Rightarrow> Inl e | Inr c \<Rightarrow> Inr (c = 0))"

definition semver_gt :: "js_version \<Rightarrow> js_version \<Rightarrow> error + bool" where
  "semver_gt a b = (case semver_compare a b of Inl e \<Rightarrow> Inl e | Inr c \<Rightarrow> Inr (0 < c))"

subsection \<open>The file system\<close>

text \<open>
  The directories that exist and the content of the files that exist. \<open>fs_mkdir\<close> is
  \<open>fs.mkdir\<close> (not recursive): it fails with \<open>EEXIST\<close> when the name is taken and with
  \<open>ENOENT\<close> when the parent is missing. \<open>fs_writeFile\<close> creates or truncates the file;
  opening a write stream does the same with no content yet.
\<close>

record filesystem =
  dirs :: "path set"
  files :: "path \<rightharpoonup> string"

definition fs_mkdir :: "path \<Rightarrow> filesystem \<Rightarrow> errno + filesystem" where
  "fs_mkdir p f =
     (if p \<in> dirs f \<or> files f p \<noteq> None then Inl EEXIST
      else if butlast p \<notin> dirs f then Inl ENOENT
      else Inr (f\<lparr>dirs := insert p (dirs f)\<rparr>))"

definition fs_readFile :: "path \<Rightarrow> filesystem \<Rightarrow> errno + string" where
  "fs_readFile p f =
     (if p \<in> dirs f then Inl EISDIR
      else case files f p of None \<Rightarrow> Inl ENOENT | Some content \<Rightarrow> Inr content)"

definition fs_writeFile :: "path \<Rightarrow> string \<Rightarrow> filesystem \<Rightarrow> errno + filesystem" where
  "fs_writeFile p content f =
     (if p \<in> dirs f then Inl EISDIR
      else if butlast p \<notin> dirs f then Inl ENOENT
      else Inr (f\<lparr>files := (files f)(p \<mapsto> content)\<rparr>))"

subsection \<open>Numbers and strings\<close>

text \<open>
  \<open>parseInt\<close> as ECMAScript defines it for a call with no radix: leading white space is
  dropped, a sign is read, a \<open>0x\<close> prefix selects radix 16, and the longest prefix of
  digits is the value; no digit at all is \<open>NaN\<close>, here \<open>None\<close>. The value is an
  unbounded integer. The argument is the content of the file decoded as UTF-8, and a
  \<open>char\<close> is a byte: the white space of ECMAScript is the six ASCII characters of
  \<open>is_space\<close>, the no-break space \<open>U+00A0\<close> (two bytes) and the code points of
  \<open>unicode_spaces\<close> (three bytes each: \<open>U+1680\<close>, \<open>U+2000\<close> to \<open>U+200A\<close>,
  \<open>U+2028\<close>, \<open>U+2029\<close>, \<open>U+202F\<close>, \<open>U+205F\<close>, \<open>U+3000\<close> and \<open>U+FEFF\<close>).
\<close>

definition is_space :: "char \<Rightarrow> bool" where
  "is_space c = (c \<in> set [CHR '' '', CHR 0x09, CHR 0x0A, CHR 0x0B, CHR 0x0C, CHR 0x0D])"

definition unicode_spaces :: "string list" where
  "unicode_spaces =
     [[CHR 0xE1, CHR 0x9A, CHR 0x80],
      [CHR 0xE2, CHR 0x80, CHR 0x80], [CHR 0xE2, CHR 0x80, CHR 0x81],
      [CHR 0xE2, CHR 0x80, CHR 0x82], [CHR 0xE2, CHR 0x80, CHR 0x83],
      [CHR 0xE2, CHR 0x80, CHR 0x84], [CHR 0xE2, CHR 0x80, CHR 0x85],
      [CHR 0xE2, CHR 0x80, CHR 0x86], [CHR 0xE2, CHR 0x80, CHR 0x87],
      [CHR 0xE2, CHR 0x80, CHR 0x88], [CHR 0xE2, CHR 0x80, CHR 0x89],
      [CHR 0xE2, CHR 0x80, CHR 0x8A],
      [CHR 0xE2, CHR 0x80, CHR 0xA8], [CHR 0xE2, CHR 0x80, CHR 0xA9],
      [CHR 0xE2, CHR 0x80, CHR 0xAF], [CHR 0xE2, CHR 0x81, CHR 0x9F],
      [CHR 0xE3, CHR 0x80, CHR 0x80], [CHR 0xEF, CHR 0xBB, CHR 0xBF]]"

fun trimStart :: "string \<Rightarrow> string" where
  "trimStart [] = []"
| "trimStart (c # cs) =
     (if is_space c then trimStart cs
      else if c = CHR 0xC2 \<and> take 1 cs = [CHR 0xA0] then trimStart (drop 1 cs)
      else if take 3 (c # cs) \<in> set unicode_spaces then trimStart (drop 2 cs)
      else c # cs)"

declare trimStart.simps [simp del]

definition digit_val :: "char \<Rightarrow> nat option" where
  "digit_val c =
     (let n = (of_char c :: nat) in
      if 48 \<le> n \<and> n \<le> 57 then Some (n - 48)
      else if 97 \<le> n \<and> n \<le> 122 then Some (n - 87)
      else if 65 \<le> n \<and> n \<le> 90 then Some (n - 55)
      else None)"

definition in_radix :: "nat \<Rightarrow> char \<Rightarrow> bool" where
  "in_radix R c = (case digit_val c of None \<Rightarrow> False | Some d \<Rightarrow> d < R)"

definition digit_of :: "char \<Rightarrow> nat" where
  "digit_of c = (case digit_val c of None \<Rightarrow> 0 | Some d \<Rightarrow> d)"

definition parseInt :: "string \<Rightarrow> int option" where
  "parseInt input =
     (let s = trimStart input;
          negative = (s \<noteq> [] \<and> hd s = CHR ''-'');
          s1 = (if s \<noteq> [] \<and> (hd s = CHR ''+'' \<or> hd s = CHR ''-'') then tl s else s);
          hex = (2 \<le> length s1 \<and> hd s1 = CHR ''0'' \<and> (s1 ! 1 = CHR ''x'' \<or> s1 ! 1 = CHR ''X''));
          R = (if hex then 16 else 10);
          z = takeWhile (in_radix R) (if hex then drop 2 s1 else s1)
      in if z = [] then None
         else Some ((if negative then -1 else 1) * int (foldl (\<lambda>a c. a * R + digit_of c) 0 z)))"

text \<open>The template literal \<open>`${roll}`\<close> of an integer: its decimal digits.\<close>

definition digit_char :: "nat \<Rightarrow> char" where
  "digit_char d = ''0123456789'' ! d"

fun show_nat :: "nat \<Rightarrow> string" where
  "show_nat n = (if n < 10 then [digit_char n] else show_nat (n div 10) @ [digit_char (n mod 10)])"

definition show_int :: "int \<Rightarrow> string" where
  "show_int i = (if i < 0 then CHR ''-'' # show_nat (nat (- i)) else show_nat (nat i))"

text \<open>The template literal \<open>`"${x}"`\<close>: the string between double quotes.\<close>

definition quoted :: "string \<Rightarrow> string" where
  "quoted x = CHR 0x22 # x @ [CHR 0x22]"

declare show_nat.simps [simp del]

subsection \<open>Requests, responses and the world\<close>

text \<open>
  \<open>info\<close> is the request object the caller passes. \<open>waitPids\<close> is the array of process
  identifiers. The version of the running application is the string \<open>info.version\<close>.
\<close>

record info =
  baseUrl :: string
  version :: js_version
  versionFileName :: string
  tempDir :: path
  cacheDir :: path
  exec :: string
  cwd :: string
  appDir :: string
  waitPids :: "nat list"

text \<open>
  What a request yields: no response at all, or a response with a status code and a body.
  The version endpoint is asked with \<open>json: true\<close>, so its body arrives parsed:
  \<open>NoBody\<close> is a body that is \<open>null\<close> or \<open>undefined\<close>, \<open>VersionBody v\<close> a body whose
  \<open>version\<close> property reads \<open>v\<close>. The body of the chance endpoint is text that
  \<open>JSON.parse\<close> rejects (\<open>NotJson\<close>), parses to \<open>null\<close> (\<open>JsonNull\<close>), or parses to a
  value whose \<open>chance\<close> property is absent (\<open>None\<close>) or an integer, as the endpoint's
  interface has it. The body of the binary endpoint is its bytes.
\<close>

datatype 'b http = TransportError | Response nat 'b

datatype version_body = NoBody | VersionBody js_version

datatype chance_body = NotJson | JsonNull | JsonBody "int option"

text \<open>
  What creating the status window does: the constructor throws, a later call of the
  \<open>try\<close> block throws, or nothing throws.
\<close>

datatype window_outcome = ConstructorThrows | SetupThrows | WindowShown

text \<open>
  \<open>random\<close> is what \<open>Math.random()\<close> returns. \<open>mkdirs_before_open\<close> is the scheduling
  of the one call the program does not await, \<open>ensureDir(info.tempDir)\<close>: how many of its
  \<open>mkdir\<close> calls have completed when the write stream of the download opens its file.
  The program reaches the counts 0 and 1 only: \<open>ensureDir\<close> requests its second
  \<open>mkdir\<close> after the callback of the first, and by then \<open>createWriteStream\<close> has
  queued its open. A larger count is what an awaited call would give.
  \<open>spawn_throws\<close>: \<open>cp.spawn\<close> throws, as it does for the errors that it does not
  report through the \<open>error\<close> event of the child.
\<close>

record world =
  version_response :: "version_body http"
  chance_response :: "chance_body http"
  binary_response :: "string http"
  random :: real
  window :: window_outcome
  mkdirs_before_open :: nat
  spawn_throws :: bool

datatype window_ref = BrowserWindow

record state =
  fs :: filesystem
  statusWindow :: "window_ref option"
  trace :: "event list"

definition emit :: "event \<Rightarrow> state \<Rightarrow> state" where
  "emit e s = s\<lparr>trace := trace s @ [e]\<rparr>"

text \<open>\<open>if (statusWindow) statusWindow.close();\<close> The variable keeps the reference.\<close>

definition closeStatusWindow :: "state \<Rightarrow> state" where
  "closeStatusWindow s = (if statusWindow s \<noteq> None then emit WindowClosed s else s)"

subsection \<open>mkdirMaybe and ensureDir\<close>

definition mkdirMaybe :: "path \<Rightarrow> state \<Rightarrow> (error + unit) \<times> state" where
  "mkdirMaybe directory s =
     (let s1 = emit (FsMkdir directory) s in
      case fs_mkdir directory (fs s1) of
        Inr f \<Rightarrow> (Inr (), s1\<lparr>fs := f\<rparr>)
      | Inl code \<Rightarrow> if code \<noteq> EEXIST then (Inl (FsError code), s1) else (Inr (), s1))"

text \<open>
  The loop of \<open>ensureDir\<close>: \<open>directory\<close> is the path built so far, the list holds the
  components \<open>directories[i..]\<close> still to be appended. The first component is never
  created.
\<close>

fun ensureDir_loop :: "path \<Rightarrow> string list \<Rightarrow> state \<Rightarrow> (error + unit) \<times> state" where
  "ensureDir_loop directory [] s = (Inr (), s)"
| "ensureDir_loop directory (d # ds) s =
     (case mkdirMaybe (directory @ [d]) s of
        (Inl e, s1) \<Rightarrow> (Inl e, s1)
      | (Inr u, s1) \<Rightarrow> ensureDir_loop (directory @ [d]) ds s1)"

definition ensureDir :: "path \<Rightarrow> state \<Rightarrow> (error + unit) \<times> state" where
  "ensureDir dirPath s =
     (case dirPath of [] \<Rightarrow> (Inr (), s) | d0 # ds \<Rightarrow> ensureDir_loop [d0] ds s)"

text \<open>
  The same loop when nobody awaits it: it runs for at most \<open>k\<close> iterations and is then
  suspended at its \<open>await\<close>, to be resumed later.
\<close>

datatype task = Finished | Crashed error | Suspended path "string list"

fun ensureDir_upto :: "nat \<Rightarrow> path \<Rightarrow> string list \<Rightarrow> state \<Rightarrow> task \<times> state" where
  "ensureDir_upto k directory [] s = (Finished, s)"
| "ensureDir_upto 0 directory (d # ds) s = (Suspended directory (d # ds), s)"
| "ensureDir_upto (Suc k) directory (d # ds) s =
     (case mkdirMaybe (directory @ [d]) s of
        (Inl e, s1) \<Rightarrow> (Crashed e, s1)
      | (Inr u, s1) \<Rightarrow> ensureDir_upto k (directory @ [d]) ds s1)"

definition ensureDir_start :: "nat \<Rightarrow> path \<Rightarrow> state \<Rightarrow> task \<times> state" where
  "ensureDir_start k dirPath s =
     (case dirPath of [] \<Rightarrow> (Finished, s) | d0 # ds \<Rightarrow> ensureDir_upto k [d0] ds s)"

text \<open>
  Resuming the suspended loop runs it to its end. Its promise has no handler: a rejection
  is reported by the runtime and reaches no caller.
\<close>

definition ensureDir_resume :: "task \<Rightarrow> state \<Rightarrow> state" where
  "ensureDir_resume t s =
     (case t of
        Finished \<Rightarrow> s
      | Crashed e \<Rightarrow> emit (UnhandledRejection e) s
      | Suspended directory ds \<Rightarrow>
          (case ensureDir_loop directory ds s of
             (Inl e, s1) \<Rightarrow> emit (UnhandledRejection e) s1
           | (Inr u, s1) \<Rightarrow> s1))"

subsection \<open>The rollout gate\<close>

definition getPreviousRoll :: "path \<Rightarrow> state \<Rightarrow> int \<times> state" where
  "getPreviousRoll cacheFile s =
     (let s1 = emit (FsRead cacheFile) s in
      case fs_readFile cacheFile (fs s1) of
        Inl err \<Rightarrow> (0, emit (Log RollCacheNotFound) s1)
      | Inr data \<Rightarrow>
          (case parseInt data of
             None \<Rightarrow> (0, s1)
           | Some roll \<Rightarrow> (if roll = 0 then 0 else roll, s1)))"

definition writeFile :: "path \<Rightarrow> string \<Rightarrow> state \<Rightarrow> (error + unit) \<times> state" where
  "writeFile p content s =
     (let s1 = emit (FsWrite p content) s in
      case fs_writeFile p content (fs s1) of
        Inl code \<Rightarrow> (Inl (FsError code), s1)
      | Inr f \<Rightarrow> (Inr (), s1\<lparr>fs := f\<rparr>))"

text \<open>
  The body of \<open>if (roll === 0)\<close>: the draw \<open>Math.trunc(Math.random() * 100) + 1\<close>, then
  the two awaited calls that store it. The product is taken exactly here; in doubles it
  can round up to the next integer, and is still below 100.
\<close>

definition drawRoll :: "path \<Rightarrow> world \<Rightarrow> state \<Rightarrow> (error + int) \<times> state" where
  "drawRoll rollCache w s =
     (let roll = \<lfloor>random w * 100\<rfloor> + 1 in
      case ensureDir (butlast rollCache) s of
        (Inl e, s1) \<Rightarrow> (Inl e, s1)
      | (Inr u, s1) \<Rightarrow>
          (case writeFile rollCache (show_int roll) s1 of
             (Inl e, s2) \<Rightarrow> (Inl e, s2)
           | (Inr u, s2) \<Rightarrow> (Inr roll, s2)))"

text \<open>
  \<open>roll <= chance\<close>: with \<open>chance\<close> undefined the comparison is false.
\<close>

definition roll_le_chance :: "int \<Rightarrow> int option \<Rightarrow> bool" where
  "roll_le_chance roll chance = (case chance of None \<Rightarrow> False | Some c \<Rightarrow> roll \<le> c)"

definition checkChance :: "info \<Rightarrow> string \<Rightarrow> world \<Rightarrow> state \<Rightarrow> (error + bool) \<times> state" where
  "checkChance i v w s =
     (let s1 = emit (HttpGet ChanceEndpoint (''/'' @ v @ ''.chance'')) s in
      case chance_response w of
        TransportError \<Rightarrow> (Inl TransportFailure, s1)
      | Response statusCode body \<Rightarrow>
          if statusCode \<noteq> 200 then (Inr True, emit (Log NoChanceFile) s1)
          else
            (let rollCache = cacheDir i @ [''rolls'', v] in
             case body of
               NotJson \<Rightarrow> (Inl SyntaxError, s1)
             | JsonNull \<Rightarrow> (Inl (TypeError ''Cannot read property chance of null''), s1)
             | JsonBody chance \<Rightarrow>
                 (let s2 = emit (Log (ChanceIs chance)) s1 in
                  case getPreviousRoll rollCache s2 of
                    (roll0, s3) \<Rightarrow>
                      (case (if roll0 = 0 then drawRoll rollCache w s3 else (Inr roll0, s3)) of
                         (Inl e, s4) \<Rightarrow> (Inl e, s4)
                       | (Inr roll, s4) \<Rightarrow>
                           (let s5 = emit (Log (YouRolled roll)) s4 in
                            if roll_le_chance roll chance then (Inr True, s5)
                            else (Inr False, s5))))))"

subsection \<open>The download\<close>

text \<open>
  \<open>fs.createWriteStream\<close> opens (creates or truncates) the file; a failure of the open is
  the \<open>error\<close> event of the stream, which rejects. \<open>request(...).pipe(outStream)\<close> writes
  the body of whatever response arrives into the file. The promise settles by the three
  callbacks of the source: a response whose status is not 200 rejects, the \<open>close\<close> of
  the output stream resolves, its \<open>error\<close> rejects. When the request itself fails there
  is no response and the output stream neither closes nor fails: no callback runs, and
  the \<open>error\<close> event of the request, which has no listener, is thrown by the runtime.
  The progress callback only sends a message to the window and is left out.
\<close>

definition fetchUpdater :: "info \<Rightarrow> world \<Rightarrow> state \<Rightarrow> path promise \<times> state" where
  "fetchUpdater i w s =
     (let updaterPath = tempDir i @ [''latest-updater.exe''];
          s1 = emit (FsOpenWrite updaterPath) s;
          opened = fs_writeFile updaterPath [] (fs s1);
          s2 = emit (HttpGet BinaryEndpoint ''/latest-updater.exe'')
                 (case opened of Inl code \<Rightarrow> s1 | Inr f \<Rightarrow> s1\<lparr>fs := f\<rparr>)
      in case binary_response w of
           TransportError \<Rightarrow>
             (let s3 = emit (UncaughtException TransportFailure) s2 in
              case opened of
                Inl code \<Rightarrow> (Rejected (FsError code), s3)
              | Inr f \<Rightarrow> (Pending, s3))
         | Response statusCode body \<Rightarrow>
             (case opened of
                Inl code \<Rightarrow> (Rejected (FsError code), s2)
              | Inr f \<Rightarrow>
                  (let s3 = s2\<lparr>fs := (fs s2)\<lparr>files := (files (fs s2))(updaterPath \<mapsto> body)\<rparr>\<rparr> in
                   if statusCode \<noteq> 200 then (Rejected (FetchFailed statusCode), s3)
                   else (Resolved updaterPath, s3))))"

subsection \<open>The entry point\<close>

definition getVersion :: "info \<Rightarrow> world \<Rightarrow> state \<Rightarrow> (error + js_version) \<times> state" where
  "getVersion i w s =
     (let s1 = emit (HttpGet VersionEndpoint (''/'' @ versionFileName i)) s in
      case version_response w of
        TransportError \<Rightarrow> (Inl TransportFailure, s1)
      | Response statusCode body \<Rightarrow>
          if statusCode \<noteq> 200 then (Inr Falsy, emit (Log (FailedToFetchVersion statusCode)) s1)
          else
            (case body of
               NoBody \<Rightarrow> (Inl (TypeError ''Cannot read property version of null''), s1)
             | VersionBody v \<Rightarrow> (Inr v, s1)))"

definition version_string :: "js_version \<Rightarrow> string" where
  "version_string v = (case v of Valid raw p \<Rightarrow> raw | _ \<Rightarrow> [])"

text \<open>
  The \<open>try\<close> block that creates the status window, and its \<open>catch\<close>, which closes
  whatever \<open>statusWindow\<close> holds and sets it to \<open>null\<close>.
\<close>

definition openStatusWindow :: "world \<Rightarrow> state \<Rightarrow> state" where
  "openStatusWindow w s =
     (case window w of
        ConstructorThrows \<Rightarrow> (closeStatusWindow s)\<lparr>statusWindow := None\<rparr>
      | SetupThrows \<Rightarrow>
          (closeStatusWindow (emit WindowCreated (s\<lparr>statusWindow := Some BrowserWindow\<rparr>)))
            \<lparr>statusWindow := None\<rparr>
      | WindowShown \<Rightarrow> emit WindowCreated (s\<lparr>statusWindow := Some BrowserWindow\<rparr>))"

text \<open>
  The loop \<open>for (pid in info.waitPids)\<close>. Its first iteration calls
  \<open>updaterArgs.push_back\<close>, which a JavaScript array does not have: a \<open>TypeError\<close>.
  With no element the body never runs.
\<close>

fun push_waitPids :: "string list \<Rightarrow> nat list \<Rightarrow> error + string list" where
  "push_waitPids updaterArgs [] = Inr updaterArgs"
| "push_waitPids updaterArgs (pid # pids) =
     Inl (TypeError ''updaterArgs.push_back is not a function'')"

definition initialArgs :: "info \<Rightarrow> string \<Rightarrow> string list" where
  "initialArgs i latestVersion =
     [''--base-url'', quoted (baseUrl i),
      ''--version'', quoted latestVersion,
      ''--exec'', quoted (exec i),
      ''--cwd'', quoted (cwd i),
      ''--app-dir'', quoted (appDir i),
      ''--force-temp'']"

text \<open>
  The second half of \<open>entry\<close>, from the status window on. \<open>ensureDir(info.tempDir)\<close> is
  started and not awaited; \<open>fetchUpdater\<close> is awaited.
\<close>

definition launch :: "info \<Rightarrow> string \<Rightarrow> world \<Rightarrow> state \<Rightarrow> bool promise \<times> state" where
  "launch i latestVersion w s =
     (let s1 = openStatusWindow w s in
      case ensureDir_start (mkdirs_before_open w) (tempDir i) s1 of
        (t, s2) \<Rightarrow>
          (case fetchUpdater i w s2 of
             (r, s3) \<Rightarrow>
               (let s4 = ensureDir_resume t s3 in
                case r of
                  Rejected e \<Rightarrow> (Rejected e, s4)
                | Pending \<Rightarrow> (Pending, s4)
                | Resolved updaterPath \<Rightarrow>
                    (case push_waitPids (initialArgs i latestVersion) (waitPids i) of
                       Inl e \<Rightarrow> (Rejected e, s4)
                     | Inr updaterArgs \<Rightarrow>
                         (let s5 = emit (Log (UpdaterArgs updaterArgs)) s4 in
                          if spawn_throws w then (Rejected SpawnFailed, s5)
                          else (Resolved True,
                                closeStatusWindow
                                  (emit (Spawned updaterPath updaterArgs (tempDir i)) s5)))))))"

definition entry :: "info \<Rightarrow> world \<Rightarrow> state \<Rightarrow> bool promise \<times> state" where
  "entry i w s =
     (case getVersion i w s of
        (Inl e, s1) \<Rightarrow> (Rejected e, s1)
      | (Inr latestVersion, s1) \<Rightarrow>
          if js_falsy latestVersion then (Resolved False, emit (Log FailedToFetchLatest) s1)
          else
            (case semver_eq (version i) latestVersion of
               Inl e \<Rightarrow> (Rejected e, s1)
             | Inr True \<Rightarrow> (Resolved False, emit (Log AlreadyLatest) s1)
             | Inr False \<Rightarrow>
                 (case semver_gt (version i) latestVersion of
                    Inl e \<Rightarrow> (Rejected e, s1)
                  | Inr True \<Rightarrow> (Resolved False, emit (Log LatestIsLess) s1)
                  | Inr False \<Rightarrow>
                      (case checkChance i (version_string latestVersion) w s1 of
                         (Inl e, s2) \<Rightarrow> (Rejected e, s2)
                       | (Inr False, s2) \<Rightarrow> (Resolved False, emit (Log FailedLottery) s2)
                       | (Inr True, s2) \<Rightarrow> launch i (version_string latestVersion) w s2))))"

text \<open>\<open>module.exports\<close>: the rejection of \<open>entry\<close> becomes \<open>false\<close>.\<close>

definition module_exports :: "info \<Rightarrow> world \<Rightarrow> state \<Rightarrow> bool promise \<times> state" where
  "module_exports i w s =
     (case entry i w s of
        (Rejected e, s1) \<Rightarrow> (Resolved False, closeStatusWindow (emit (Log (Caught e)) s1))
      | (Resolved b, s1) \<Rightarrow> (Resolved b, s1)
      | (Pending, s1) \<Rightarrow> (Pending, s1))"

subsection \<open>Reading a trace\<close>

definition window_step :: "bool \<Rightarrow> event \<Rightarrow> bool" where
  "window_step shown e = (if e = WindowCreated then True else if e = WindowClosed then False else shown)"

definition window_left_open :: "event list \<Rightarrow> bool" where
  "window_left_open tr = foldl window_step False tr"

fun is_spawn :: "event \<Rightarrow> bool" where
  "is_spawn (Spawned p args d) = True"
| "is_spawn e = False"

fun is_fs_event :: "event \<Rightarrow> bool" where
  "is_fs_event (FsRead p) = True"
| "is_fs_event (FsMkdir p) = True"
| "is_fs_event (FsWrite p c) = True"
| "is_fs_event (FsOpenWrite p) = True"
| "is_fs_event e = False"

fun rolled :: "event \<Rightarrow> int option" where
  "rolled (Log (YouRolled r)) = Some r"
| "rolled e = None"

definition rolls :: "event list \<Rightarrow> int list" where
  "rolls tr = List.map_filter rolled tr"

fun is_request :: "endpoint \<Rightarrow> event \<Rightarrow> bool" where
  "is_request ep (HttpGet ep' uri) = (ep = ep')"
| "is_request ep e = False"

definition requested :: "endpoint \<Rightarrow> event list \<Rightarrow> bool" where
  "requested ep tr = list_ex (is_request ep) tr"

definition spawned :: "event list \<Rightarrow> bool" where
  "spawned tr = list_ex is_spawn tr"

definition initial :: "filesystem \<Rightarrow> state" where
  "initial f = \<lparr>fs = f, statusWindow = None, trace = []\<rparr>"

text \<open>
  Events that touch neither the window nor a child process, send no request and log no
  roll. \<open>quiet_step s s'\<close>: from \<open>s\<close> to \<open>s'\<close> only such events were appended and
  \<open>statusWindow\<close> is as before.
\<close>

fun quiet :: "event \<Rightarrow> bool" where
  "quiet (FsRead p) = True"
| "quiet (FsMkdir p) = True"
| "quiet (FsWrite p c) = True"
| "quiet (FsOpenWrite p) = True"
| "quiet (Log (YouRolled r)) = False"
| "quiet (Log l) = True"
| "quiet (UnhandledRejection e) = True"
| "quiet (UncaughtException e) = True"
| "quiet e = False"

definition quiet_step :: "state \<Rightarrow> state \<Rightarrow> bool" where
  "quiet_step s s' =
     (statusWindow s' = statusWindow s \<and> (\<exists>evs. trace s' = trace s @ evs \<and> list_all quiet evs))"

text \<open>
  The draw of \<open>drawRoll\<close>, the path of the roll cache in \<open>checkChance\<close>, and the roll
  that \<open>getPreviousRoll\<close> reads from a file system.
\<close>

definition fresh_roll :: "world \<Rightarrow> int" where
  "fresh_roll w = \<lfloor>random w * 100\<rfloor> + 1"

definition rollCachePath :: "info \<Rightarrow> string \<Rightarrow> path" where
  "rollCachePath i v = cacheDir i @ [''rolls'', v]"

definition cached_roll :: "path \<Rightarrow> filesystem \<Rightarrow> int" where
  "cached_roll p f =
     (case fs_readFile p f of
        Inl err \<Rightarrow> 0
      | Inr data \<Rightarrow> (case parseInt data of None \<Rightarrow> 0 | Some roll \<Rightarrow> roll))"

definition decimal :: "char \<Rightarrow> bool" where
  "decimal c = (\<exists>d<10. c = digit_char d)"

definition gate_roll :: "info \<Rightarrow> string \<Rightarrow> world \<Rightarrow> state \<Rightarrow> int" where
  "gate_roll i v w s =
     (if cached_roll (rollCachePath i v) (fs s) \<noteq> 0 then cached_roll (rollCachePath i v) (fs s)
      else fresh_roll w)"

definition ex_version :: "nat \<Rightarrow> nat \<Rightarrow> nat \<Rightarrow> semver" where
  "ex_version a b c = \<lparr>major = a, minor = b, patch = c, prerelease = []\<rparr>"

definition ex_info :: info where
  "ex_info =
     \<lparr>baseUrl = ''https://updates.example'',
      version = Valid ''1.0.0'' (ex_version 1 0 0),
      versionFileName = ''latest.json'',
      tempDir = [''C:'', ''Temp'', ''updater''],
      cacheDir = [''C:'', ''Cache''],
      exec = ''C:/Program Files/App/app.exe'',
      cwd = ''C:/Program Files/App'',
      appDir = ''C:/Program Files/App'',
      waitPids = []\<rparr>"

definition ex_world :: world where
  "ex_world =
     \<lparr>version_response = Response 200 (VersionBody (Valid ''1.2.0'' (ex_version 1 2 0))),
      chance_response = Response 200 (JsonBody (Some 50)),
      binary_response = Response 200 ''MZ'',
      random = 37 / 100,
      window = WindowShown,
      mkdirs_before_open = 1,
      spawn_throws = False\<rparr>"

definition ex_fs :: filesystem where
  "ex_fs = \<lparr>dirs = {[''C:''], [''C:'', ''Cache'']}, files = Map.empty\<rparr>"

text \<open>A file system on which the temp directory of \<open>ex_info\<close> exists.\<close>

definition ex_fs_temp :: filesystem where
  "ex_fs_temp =
     \<lparr>dirs = {[''C:''], [''C:'', ''Cache''], [''C:'', ''Temp''], [''C:'', ''Temp'', ''updater'']},
      files = Map.empty\<rparr>"


definition ex_fs_roll :: "string \<Rightarrow> filesystem" where
  "ex_fs_roll content =
     \<lparr>dirs = {[''C:''], [''C:'', ''Cache''], [''C:'', ''Cache'', ''rolls'']},
      files = [[''C:'', ''Cache'', ''rolls'', ''1.2.0''] \<mapsto> content]\<rparr>"

text \<open>
  Events that neither create nor close the window and spawn nothing.
  \<open>calm_step s s'\<close>: from \<open>s\<close> to \<open>s'\<close> only such events were appended and
  \<open>statusWindow\<close> is as before.
\<close>

fun calm :: "event \<Rightarrow> bool" where
  "calm WindowCreated = False"
| "calm WindowClosed = False"
| "calm (Spawned p args d) = False"
| "calm e = True"

definition calm_step :: "state \<Rightarrow> state \<Rightarrow> bool" where
  "calm_step s s' =
     (statusWindow s' = statusWindow s \<and> (\<exists>evs. trace s' = trace s @ evs \<and> list_all calm evs))"

text \<open>
  \<open>window_tracked\<close>: a window that is open is one that \<open>statusWindow\<close> holds.
  \<open>no_version\<close>: the version request failed, or answered with another status than 200,
  or its body has no version.
\<close>

definition window_tracked :: "state \<Rightarrow> bool" where
  "window_tracked s = (if window_left_open (trace s) then statusWindow s \<noteq> None else True)"

definition no_version :: "version_body http \<Rightarrow> bool" where
  "no_version r =
     (case r of
        TransportError \<Rightarrow> True
      | Response code body \<Rightarrow> code \<noteq> 200 \<or> body = NoBody \<or> body = VersionBody Falsy)"

definition ex_world_ungated :: world where
  "ex_world_ungated = ex_world\<lparr>chance_response := Response 404 NotJson\<rparr>"

text \<open>What \<open>launch\<close> does once the download has settled with \<open>r\<close>, from the state \<open>s4\<close>.\<close>

definition launch_finish ::
  "info \<Rightarrow> string \<Rightarrow> world \<Rightarrow> path promise \<Rightarrow> state \<Rightarrow> bool promise \<times> state" where
  "launch_finish i latestVersion w r s4 =
     (case r of
        Rejected e \<Rightarrow> (Rejected e, s4)
      | Pending \<Rightarrow> (Pending, s4)
      | Resolved updaterPath \<Rightarrow>
          (case push_waitPids (initialArgs i latestVersion) (waitPids i) of
             Inl e \<Rightarrow> (Rejected e, s4)
           | Inr updaterArgs \<Rightarrow>
               (let s5 = emit (Log (UpdaterArgs updaterArgs)) s4 in
                if spawn_throws w then (Rejected SpawnFailed, s5)
                else (Resolved True,
                      closeStatusWindow
                        (emit (Spawned updaterPath updaterArgs (tempDir i)) s5)))))"

text \<open>\<open>launch\<close> up to the point where the download has settled.\<close>

definition launch_download :: "info \<Rightarrow> world \<Rightarrow> state \<Rightarrow> path promise \<times> state" where
  "launch_download i w s =
     (let s1 = openStatusWindow w s in
      case ensureDir_start (mkdirs_before_open w) (tempDir i) s1 of
        (t, s2) \<Rightarrow> (case fetchUpdater i w s2 of (r, s3) \<Rightarrow> (r, ensureDir_resume t s3)))"

section \<open>Lemmas\<close>

subsection \<open>The version order\<close>

lemma compareIdentifiers_flip: "compareIdentifiers a b = - compareIdentifiers b a"
  by (cases a; cases b) auto

lemma comparePre_loop_flip: "comparePre_loop xs ys = - comparePre_loop ys xs"
proof (induction xs ys rule: comparePre_loop.induct)
  case (4 a as b bs)
  then show ?case using compareIdentifiers_flip [of a b] by auto
qed simp_all

lemma compareMain_flip: "compareMain a b = - compareMain b a"
  by (simp add: compareMain_def Let_def)

lemma comparePre_flip: "comparePre a b = - comparePre b a"
  using comparePre_loop_flip [of "prerelease a" "prerelease b"]
  by (simp add: comparePre_def)

lemma compare_flip: "compare a b = - compare b a"
  using compareMain_flip [of a b] comparePre_flip [of a b]
  by (simp add: compare_def Let_def)

subsection \<open>Writing a roll and reading it back\<close>

lemma digit_val_digit_char: "d < 10 \<Longrightarrow> digit_val (digit_char d) = Some d"
proof -
  assume "d < 10"
  then have "d \<in> {0,1,2,3,4,5,6,7,8,9}" by auto
  then show ?thesis
    by (auto simp: digit_val_def digit_char_def)
qed

lemma digit_char_plain:
  "d < 10 \<Longrightarrow> \<not> is_space (digit_char d) \<and> digit_char d \<noteq> CHR ''-'' \<and> digit_char d \<noteq> CHR ''+''
     \<and> digit_char d \<noteq> CHR ''x'' \<and> digit_char d \<noteq> CHR ''X''"
proof -
  assume "d < 10"
  then have "d \<in> {0,1,2,3,4,5,6,7,8,9}" by auto
  then show ?thesis
    by (auto simp: digit_char_def is_space_def)
qed

lemma decimal_plain:
  "decimal c \<Longrightarrow> \<not> is_space c \<and> c \<noteq> CHR ''-'' \<and> c \<noteq> CHR ''+'' \<and> c \<noteq> CHR ''x'' \<and> c \<noteq> CHR ''X''"
proof -
  assume "decimal c"
  then obtain d where "d < 10" and "c = digit_char d"
    unfolding decimal_def by blast
  then show ?thesis using digit_char_plain [of d] by simp
qed

lemma decimal_first_byte:
  "decimal c \<Longrightarrow> \<not> is_space c \<and> c \<noteq> CHR 0xC2 \<and> c \<noteq> CHR 0xE1 \<and> c \<noteq> CHR 0xE2
     \<and> c \<noteq> CHR 0xE3 \<and> c \<noteq> CHR 0xEF"
proof -
  assume "decimal c"
  then obtain d where "d < 10" and c: "c = digit_char d"
    unfolding decimal_def by blast
  then have "d \<in> {0,1,2,3,4,5,6,7,8,9}" by auto
  then show ?thesis
    unfolding c by (auto simp: digit_char_def is_space_def)
qed

lemma unicode_spaces_first_byte:
  "c # xs \<in> set unicode_spaces \<Longrightarrow> c = CHR 0xE1 \<or> c = CHR 0xE2 \<or> c = CHR 0xE3 \<or> c = CHR 0xEF"
  by (auto simp: unicode_spaces_def)

lemma decimal_trimStart: "decimal c \<Longrightarrow> trimStart (c # cs) = c # cs"
proof -
  assume d: "decimal c"
  have "take 3 (c # cs) \<notin> set unicode_spaces"
  proof
    assume "take 3 (c # cs) \<in> set unicode_spaces"
    then have "c # take 2 cs \<in> set unicode_spaces" by (simp add: numeral_3_eq_3 numeral_2_eq_2)
    from unicode_spaces_first_byte [OF this] decimal_first_byte [OF d] show False by blast
  qed
  with decimal_first_byte [OF d] show ?thesis by (simp add: trimStart.simps)
qed

lemma show_nat_decimal: "c \<in> set (show_nat n) \<Longrightarrow> decimal c"
proof (induction n arbitrary: c rule: show_nat.induct)
  case (1 n)
  show ?case
  proof (cases "n < 10")
    case True
    with "1.prems" show ?thesis by (auto simp: show_nat.simps [of n] decimal_def)
  next
    case False
    with "1.prems" have "c \<in> set (show_nat (n div 10)) \<or> c = digit_char (n mod 10)"
      by (auto simp: show_nat.simps [of n])
    then show ?thesis
    proof
      assume "c \<in> set (show_nat (n div 10))"
      with False "1.IH" show ?thesis by blast
    next
      assume "c = digit_char (n mod 10)"
      then show ?thesis unfolding decimal_def by (intro exI [of _ "n mod 10"]) simp
    qed
  qed
qed

lemma show_nat_nonempty: "show_nat n \<noteq> []"
  by (subst show_nat.simps) simp

lemma show_nat_value: "foldl (\<lambda>a c. a * 10 + digit_of c) 0 (show_nat n) = n"
proof (induction n rule: show_nat.induct)
  case (1 n)
  show ?case
  proof (cases "n < 10")
    case True
    then show ?thesis
      by (simp add: show_nat.simps [of n] digit_of_def digit_val_digit_char)
  next
    case False
    with "1.IH" have "foldl (\<lambda>a c. a * 10 + digit_of c) 0 (show_nat (n div 10)) = n div 10"
      by simp
    with False show ?thesis
      by (simp add: show_nat.simps [of n] digit_of_def digit_val_digit_char)
  qed
qed

lemma decimal_in_radix: "decimal c \<Longrightarrow> in_radix 10 c"
  by (auto simp: decimal_def in_radix_def digit_val_digit_char)

lemma parseInt_decimal:
  assumes ne: "s \<noteq> []" and all: "\<forall>c\<in>set s. decimal c"
  shows "parseInt s = Some (int (foldl (\<lambda>a c. a * 10 + digit_of c) 0 s))"
proof -
  from ne have "hd s \<in> set s" by simp
  with all have "decimal (hd s)" by blast
  then have h: "\<not> is_space (hd s)" "hd s \<noteq> CHR ''-''" "hd s \<noteq> CHR ''+''"
    using decimal_plain by blast+
  from ne \<open>decimal (hd s)\<close> have dw: "trimStart s = s"
    by (cases s) (simp_all only: decimal_trimStart list.sel)
  from h have e1: "(s \<noteq> [] \<and> hd s = CHR ''-'') = False" by simp
  from h have e2: "(s \<noteq> [] \<and> (hd s = CHR ''+'' \<or> hd s = CHR ''-'')) = False" by simp
  have e3: "(2 \<le> length s \<and> hd s = CHR ''0'' \<and> (s ! 1 = CHR ''x'' \<or> s ! 1 = CHR ''X'')) = False"
  proof -
    have "s ! 1 \<noteq> CHR ''x'' \<and> s ! 1 \<noteq> CHR ''X''" if "2 \<le> length s"
    proof -
      from that have "s ! 1 \<in> set s" by simp
      with all have "decimal (s ! 1)" by blast
      then show ?thesis using decimal_plain by blast
    qed
    then show ?thesis by blast
  qed
  have tw: "takeWhile (in_radix 10) s = s"
    using all decimal_in_radix by (simp add: takeWhile_eq_all_conv)
  show ?thesis
    unfolding parseInt_def Let_def dw e1 e2 if_False e3 tw
    using ne by simp
qed

lemma parseInt_show_nat: "parseInt (show_nat n) = Some (int n)"
proof -
  have "\<forall>c\<in>set (show_nat n). decimal c"
    using show_nat_decimal by blast
  then have "parseInt (show_nat n) = Some (int (foldl (\<lambda>a c. a * 10 + digit_of c) 0 (show_nat n)))"
    using show_nat_nonempty by (rule parseInt_decimal [rotated])
  then show ?thesis by (simp only: show_nat_value)
qed

lemma parseInt_show_int: "0 \<le> i \<Longrightarrow> parseInt (show_int i) = Some i"
  by (simp add: show_int_def parseInt_show_nat)

lemma parseInt_empty: "parseInt [] = None"
  by (simp add: parseInt_def trimStart.simps)

subsection \<open>What the helpers of the gate leave unchanged\<close>

lemma fs_emit [simp]: "fs (emit e s) = fs s"
  by (simp add: emit_def)

lemma statusWindow_emit [simp]: "statusWindow (emit e s) = statusWindow s"
  by (simp add: emit_def)

lemma trace_emit [simp]: "trace (emit e s) = trace s @ [e]"
  by (simp add: emit_def)

lemma quiet_step_refl [simp]: "quiet_step s s"
  by (simp add: quiet_step_def)

lemma quiet_step_trans: "quiet_step s s1 \<Longrightarrow> quiet_step s1 s2 \<Longrightarrow> quiet_step s s2"
  by (auto simp: quiet_step_def)

lemma quiet_step_emit: "quiet e \<Longrightarrow> quiet_step s s1 \<Longrightarrow> quiet_step s (emit e s1)"
  by (auto simp: quiet_step_def)

lemma quiet_step_fs [simp]: "quiet_step s (s1\<lparr>fs := f\<rparr>) = quiet_step s s1"
  by (simp add: quiet_step_def)

lemma mkdirMaybe_quiet: "quiet_step s (snd (mkdirMaybe d s))"
  by (simp add: mkdirMaybe_def Let_def quiet_step_emit split: sum.splits)

lemma mkdirMaybe_files: "files (fs (snd (mkdirMaybe d s))) = files (fs s)"
  by (simp add: mkdirMaybe_def Let_def fs_mkdir_def split: sum.splits if_splits)

lemma mkdirMaybe_dirs: "dirs (fs s) \<subseteq> dirs (fs (snd (mkdirMaybe d s)))"
  by (auto simp: mkdirMaybe_def Let_def fs_mkdir_def split: sum.splits if_splits)

lemma ensureDir_loop_quiet: "quiet_step s (snd (ensureDir_loop d ds s))"
proof (induction ds arbitrary: d s)
  case Nil
  show ?case by simp
next
  case (Cons x xs)
  obtain r s1 where m: "mkdirMaybe (d @ [x]) s = (r, s1)" by (cases "mkdirMaybe (d @ [x]) s")
  have q: "quiet_step s s1" using mkdirMaybe_quiet [of s "d @ [x]"] m by simp
  show ?case
  proof (cases r)
    case (Inl e)
    with m q show ?thesis by simp
  next
    case (Inr u)
    with m have "snd (ensureDir_loop d (x # xs) s) = snd (ensureDir_loop (d @ [x]) xs s1)" by simp
    with Cons.IH [of s1 "d @ [x]"] q show ?thesis by (metis quiet_step_trans)
  qed
qed

lemma ensureDir_loop_files: "files (fs (snd (ensureDir_loop d ds s))) = files (fs s)"
proof (induction ds arbitrary: d s)
  case Nil
  show ?case by simp
next
  case (Cons x xs)
  obtain r s1 where m: "mkdirMaybe (d @ [x]) s = (r, s1)" by (cases "mkdirMaybe (d @ [x]) s")
  have q: "files (fs s1) = files (fs s)" using mkdirMaybe_files [of "d @ [x]" s] m by simp
  show ?case
  proof (cases r)
    case (Inl e)
    with m q show ?thesis by simp
  next
    case (Inr u)
    with m have "snd (ensureDir_loop d (x # xs) s) = snd (ensureDir_loop (d @ [x]) xs s1)" by simp
    with Cons.IH [of "d @ [x]" s1] q show ?thesis by simp
  qed
qed

lemma ensureDir_quiet: "quiet_step s (snd (ensureDir p s))"
  by (simp add: ensureDir_def ensureDir_loop_quiet split: list.splits)

lemma ensureDir_files: "files (fs (snd (ensureDir p s))) = files (fs s)"
  by (simp add: ensureDir_def ensureDir_loop_files split: list.splits)

lemma getPreviousRoll_result: "fst (getPreviousRoll p s) = cached_roll p (fs s)"
  by (simp add: getPreviousRoll_def cached_roll_def Let_def split: sum.splits option.splits)

lemma getPreviousRoll_fs: "fs (snd (getPreviousRoll p s)) = fs s"
  by (simp add: getPreviousRoll_def Let_def split: sum.splits option.splits)

lemma getPreviousRoll_quiet: "quiet_step s (snd (getPreviousRoll p s))"
  by (simp add: getPreviousRoll_def Let_def quiet_step_emit split: sum.splits option.splits)

lemma writeFile_quiet: "quiet_step s (snd (writeFile p c s))"
  by (simp add: writeFile_def Let_def quiet_step_emit split: sum.splits)

lemma writeFile_read:
  "fst (writeFile p c s) = Inr u \<Longrightarrow> fs_readFile p (fs (snd (writeFile p c s))) = Inr c"
  by (auto simp: writeFile_def Let_def fs_writeFile_def fs_readFile_def split: sum.splits if_splits)

lemma drawRoll_quiet: "quiet_step s (snd (drawRoll p w s))"
proof -
  let ?c = "show_int (\<lfloor>random w * 100\<rfloor> + 1)"
  obtain r1 s1 where e: "ensureDir (butlast p) s = (r1, s1)" by (cases "ensureDir (butlast p) s")
  obtain r2 s2 where f: "writeFile p ?c s1 = (r2, s2)" by (cases "writeFile p ?c s1")
  have q1: "quiet_step s s1" using ensureDir_quiet [of s "butlast p"] e by simp
  have "quiet_step s1 s2" using writeFile_quiet [of s1 p ?c] f by simp
  with q1 have q2: "quiet_step s s2" by (rule quiet_step_trans)
  show ?thesis
    using e f q1 q2 by (cases r1; cases r2) (simp_all add: drawRoll_def Let_def)
qed

lemma drawRoll_result:
  assumes "fst (drawRoll p w s) = Inr roll"
  shows "roll = fresh_roll w \<and> fs_readFile p (fs (snd (drawRoll p w s))) = Inr (show_int roll)"
proof -
  obtain r1 s1 where e: "ensureDir (butlast p) s = (r1, s1)" by (cases "ensureDir (butlast p) s")
  from assms e obtain u where r1: "r1 = Inr u"
    by (cases r1) (auto simp: drawRoll_def Let_def)
  let ?c = "show_int (fresh_roll w)"
  from assms e r1 have w: "fst (writeFile p ?c s1) = Inr ()"
    by (auto simp: drawRoll_def Let_def fresh_roll_def split: sum.splits prod.splits)
  from assms e r1 have "roll = fresh_roll w"
    by (auto simp: drawRoll_def Let_def fresh_roll_def split: sum.splits prod.splits)
  moreover from e r1 w have "snd (drawRoll p w s) = snd (writeFile p ?c s1)"
    by (auto simp: drawRoll_def Let_def fresh_roll_def split: sum.splits prod.splits)
  ultimately show ?thesis using writeFile_read [OF w] by simp
qed

lemma rolls_Nil [simp]: "rolls [] = []"
  by (simp add: rolls_def List.map_filter_def)

lemma rolls_Cons [simp]:
  "rolls (e # es) = (case rolled e of None \<Rightarrow> rolls es | Some r \<Rightarrow> r # rolls es)"
  by (simp add: rolls_def List.map_filter_def split: option.splits)

lemma rolls_append [simp]: "rolls (xs @ ys) = rolls xs @ rolls ys"
  by (simp add: rolls_def List.map_filter_def)

lemma quiet_not_rolled: "quiet e \<Longrightarrow> rolled e = None"
  by (induction e rule: quiet.induct) simp_all

lemma rolls_quiet: "list_all quiet evs \<Longrightarrow> rolls evs = []"
  by (induction evs) (simp_all add: quiet_not_rolled)

lemma quiet_step_rolls: "quiet_step s s' \<Longrightarrow> rolls (trace s') = rolls (trace s)"
  by (auto simp: quiet_step_def rolls_quiet)

lemma writeFile_parent:
  "fst (writeFile p c s) = Inr u \<Longrightarrow> butlast p \<in> dirs (fs (snd (writeFile p c s)))"
  by (auto simp: writeFile_def Let_def fs_writeFile_def split: sum.splits if_splits)

lemma drawRoll_parent:
  assumes "fst (drawRoll p w s) = Inr roll"
  shows "butlast p \<in> dirs (fs (snd (drawRoll p w s)))"
proof -
  let ?c = "show_int (\<lfloor>random w * 100\<rfloor> + 1)"
  obtain r1 s1 where e: "ensureDir (butlast p) s = (r1, s1)" by (cases "ensureDir (butlast p) s")
  obtain r2 s2 where f: "writeFile p ?c s1 = (r2, s2)" by (cases "writeFile p ?c s1")
  from assms e f have "r2 = Inr ()" and "snd (drawRoll p w s) = s2"
    by (cases r1; cases r2; simp add: drawRoll_def Let_def)+
  with f writeFile_parent [of p ?c s1 "()"] show ?thesis by simp
qed

lemma fresh_roll_range: "0 \<le> random w \<Longrightarrow> random w < 1 \<Longrightarrow> 1 \<le> fresh_roll w \<and> fresh_roll w \<le> 100"
proof -
  assume a: "0 \<le> random w" and b: "random w < 1"
  from a have "0 \<le> \<lfloor>random w * 100\<rfloor>" by simp
  moreover from b have "\<lfloor>random w * 100\<rfloor> < 100" by (simp add: floor_less_iff)
  ultimately show ?thesis by (simp add: fresh_roll_def)
qed

text \<open>What the gate does once the chance endpoint has answered 200 with a parsed body.\<close>

lemma checkChance_roll:
  assumes resp: "chance_response w = Response 200 (JsonBody chance)"
    and ok: "fst (checkChance i v w s) = Inr e"
  shows "e = roll_le_chance (gate_roll i v w s) chance"
    and "trace (snd (checkChance i v w s)) \<noteq> []"
    and "last (trace (snd (checkChance i v w s))) = Log (YouRolled (gate_roll i v w s))"
    and "rolls (trace (snd (checkChance i v w s))) = rolls (trace s) @ [gate_roll i v w s]"
    and "cached_roll (rollCachePath i v) (fs s) \<noteq> 0 \<Longrightarrow> fs (snd (checkChance i v w s)) = fs s"
    and "cached_roll (rollCachePath i v) (fs s) = 0 \<Longrightarrow>
           fs_readFile (rollCachePath i v) (fs (snd (checkChance i v w s))) = Inr (show_int (fresh_roll w))
           \<and> butlast (rollCachePath i v) \<in> dirs (fs (snd (checkChance i v w s)))"
proof -
  let ?p = "rollCachePath i v"
  let ?s2 = "emit (Log (ChanceIs chance)) (emit (HttpGet ChanceEndpoint (''/'' @ v @ ''.chance'')) s)"
  obtain roll0 s3 where g: "getPreviousRoll ?p ?s2 = (roll0, s3)" by (cases "getPreviousRoll ?p ?s2")
  have r0: "roll0 = cached_roll ?p (fs s)"
    using getPreviousRoll_result [of ?p ?s2] g by simp
  have fs3: "fs s3 = fs s" using getPreviousRoll_fs [of ?p ?s2] g by simp
  have "quiet_step ?s2 s3" using getPreviousRoll_quiet [of ?s2 ?p] g by simp
  then have "rolls (trace s3) = rolls (trace ?s2)" by (rule quiet_step_rolls)
  then have rolls3: "rolls (trace s3) = rolls (trace s)" by simp
  obtain dr s4 where d: "drawRoll ?p w s3 = (dr, s4)" by (cases "drawRoll ?p w s3")
  have "quiet_step s3 s4" using drawRoll_quiet [of s3 ?p w] d by simp
  then have rolls4: "rolls (trace s4) = rolls (trace s)" using rolls3 by (simp add: quiet_step_rolls)
  have A: "checkChance i v w s =
     (case (if roll0 = 0 then (dr, s4) else (Inr roll0, s3)) of
        (Inl e, s4) \<Rightarrow> (Inl e, s4)
      | (Inr roll, s4) \<Rightarrow> (Inr (roll_le_chance roll chance), emit (Log (YouRolled roll)) s4))"
    using resp g d by (simp add: checkChance_def Let_def rollCachePath_def split: sum.splits)
  have main: "e = roll_le_chance (gate_roll i v w s) chance
    \<and> trace (snd (checkChance i v w s)) \<noteq> []
    \<and> last (trace (snd (checkChance i v w s))) = Log (YouRolled (gate_roll i v w s))
    \<and> rolls (trace (snd (checkChance i v w s))) = rolls (trace s) @ [gate_roll i v w s]
    \<and> (cached_roll ?p (fs s) \<noteq> 0 \<longrightarrow> fs (snd (checkChance i v w s)) = fs s)
    \<and> (cached_roll ?p (fs s) = 0 \<longrightarrow>
           fs_readFile ?p (fs (snd (checkChance i v w s))) = Inr (show_int (fresh_roll w))
           \<and> butlast ?p \<in> dirs (fs (snd (checkChance i v w s))))"
  proof (cases "roll0 = 0")
    case False
    with A r0 ok fs3 rolls3 show ?thesis
      by (simp add: gate_roll_def)
  next
    case True
    with A ok obtain roll where dr: "dr = Inr roll" by (cases dr) auto
    with d have "fst (drawRoll ?p w s3) = Inr roll" by simp
    from drawRoll_result [OF this] drawRoll_parent [OF this] d
    have "roll = fresh_roll w" and "fs_readFile ?p (fs s4) = Inr (show_int roll)"
      and "butlast ?p \<in> dirs (fs s4)" by simp_all
    with A True dr r0 ok rolls4 show ?thesis
      by (simp add: gate_roll_def)
  qed
  from main show "e = roll_le_chance (gate_roll i v w s) chance" by blast
  from main show "trace (snd (checkChance i v w s)) \<noteq> []" by blast
  from main show "last (trace (snd (checkChance i v w s))) = Log (YouRolled (gate_roll i v w s))"
    by blast
  from main show "rolls (trace (snd (checkChance i v w s))) = rolls (trace s) @ [gate_roll i v w s]"
    by blast
  from main show "cached_roll (rollCachePath i v) (fs s) \<noteq> 0 \<Longrightarrow> fs (snd (checkChance i v w s)) = fs s"
    by blast
  from main show "cached_roll (rollCachePath i v) (fs s) = 0 \<Longrightarrow>
           fs_readFile (rollCachePath i v) (fs (snd (checkChance i v w s))) = Inr (show_int (fresh_roll w))
           \<and> butlast (rollCachePath i v) \<in> dirs (fs (snd (checkChance i v w s)))"
    by blast
qed

lemma checkChance_body:
  assumes "chance_response w = Response 200 b" and "fst (checkChance i v w s) = Inr e"
  shows "\<exists>c. b = JsonBody c"
  using assms by (cases b) (simp_all add: checkChance_def Let_def)

subsection \<open>Steps that leave the window and the child process alone\<close>

lemma quiet_calm: "quiet e \<Longrightarrow> calm e"
  by (induction e rule: quiet.induct) simp_all

lemma quiet_step_calm: "quiet_step s s' \<Longrightarrow> calm_step s s'"
proof -
  assume "quiet_step s s'"
  then obtain evs where w: "statusWindow s' = statusWindow s"
    and t: "trace s' = trace s @ evs" and q: "list_all quiet evs"
    unfolding quiet_step_def by blast
  from q have "list_all calm evs" by (induction evs) (simp_all add: quiet_calm)
  with w t show ?thesis unfolding calm_step_def by blast
qed

lemma calm_step_refl [simp]: "calm_step s s"
  by (simp add: calm_step_def)

lemma calm_step_trans: "calm_step s s1 \<Longrightarrow> calm_step s1 s2 \<Longrightarrow> calm_step s s2"
  by (auto simp: calm_step_def)

lemma calm_step_emit: "calm e \<Longrightarrow> calm_step s s1 \<Longrightarrow> calm_step s (emit e s1)"
  by (auto simp: calm_step_def)

lemma calm_step_fs [simp]: "calm_step s (s1\<lparr>fs := f\<rparr>) = calm_step s s1"
  by (simp add: calm_step_def)

lemma spawned_append: "spawned (xs @ ys) = (spawned xs \<or> spawned ys)"
  by (simp add: spawned_def list_ex_iff) blast

lemma requested_append: "requested ep (xs @ ys) = (requested ep xs \<or> requested ep ys)"
  by (simp add: requested_def list_ex_iff) blast

lemma window_left_open_append:
  "window_left_open (xs @ ys) = foldl window_step (window_left_open xs) ys"
  by (simp add: window_left_open_def)

lemma calm_not_spawned: "list_all calm evs \<Longrightarrow> \<not> spawned evs"
proof (induction evs)
  case Nil
  show ?case by (simp add: spawned_def)
next
  case (Cons e evs)
  then have "calm e" and "\<not> spawned evs" by simp_all
  moreover from \<open>calm e\<close> have "\<not> is_spawn e" by (cases e) simp_all
  ultimately show ?case by (simp add: spawned_def)
qed

lemma calm_window: "list_all calm evs \<Longrightarrow> foldl window_step b evs = b"
proof (induction evs arbitrary: b)
  case Nil
  show ?case by simp
next
  case (Cons e evs)
  then have "calm e" and "list_all calm evs" by simp_all
  from \<open>calm e\<close> have "window_step b e = b" by (cases e) (simp_all add: window_step_def)
  with Cons.IH [OF \<open>list_all calm evs\<close>] show ?case by simp
qed

lemma calm_step_spawned: "calm_step s s' \<Longrightarrow> spawned (trace s') = spawned (trace s)"
  by (auto simp: calm_step_def spawned_append calm_not_spawned)

lemma calm_step_window:
  "calm_step s s' \<Longrightarrow> window_left_open (trace s') = window_left_open (trace s)"
  by (auto simp: calm_step_def window_left_open_def calm_window)

lemma calm_step_requested:
  "calm_step s s' \<Longrightarrow> requested ep (trace s) \<Longrightarrow> requested ep (trace s')"
  by (auto simp: calm_step_def requested_append)

lemma calm_step_statusWindow: "calm_step s s' \<Longrightarrow> statusWindow s' = statusWindow s"
  by (simp add: calm_step_def)

lemma getVersion_calm: "calm_step s (snd (getVersion i w s))"
  by (simp add: getVersion_def Let_def calm_step_emit split: http.splits version_body.splits)

lemma checkChance_calm_after_request:
  "calm_step (emit (HttpGet ChanceEndpoint (''/'' @ v @ ''.chance'')) s) (snd (checkChance i v w s))"
proof -
  let ?p = "cacheDir i @ [''rolls'', v]"
  let ?s1 = "emit (HttpGet ChanceEndpoint (''/'' @ v @ ''.chance'')) s"
  have c1: "calm_step ?s1 ?s1" by simp
  show ?thesis
  proof (cases "chance_response w")
    case TransportError
    with c1 show ?thesis by (simp add: checkChance_def Let_def)
  next
    case (Response code body)
    show ?thesis
    proof (cases "code = 200")
      case False
      with Response c1 show ?thesis by (simp add: checkChance_def Let_def calm_step_emit)
    next
      case True
      show ?thesis
      proof (cases body)
        case NotJson
        with Response True c1 show ?thesis by (simp add: checkChance_def Let_def)
      next
        case JsonNull
        with Response True c1 show ?thesis by (simp add: checkChance_def Let_def)
      next
        case (JsonBody chance)
        let ?s2 = "emit (Log (ChanceIs chance)) ?s1"
        obtain roll0 s3 where g: "getPreviousRoll ?p ?s2 = (roll0, s3)"
          by (cases "getPreviousRoll ?p ?s2")
        obtain dr s4 where d: "drawRoll ?p w s3 = (dr, s4)" by (cases "drawRoll ?p w s3")
        have c2: "calm_step ?s1 ?s2" using c1 by (simp add: calm_step_emit)
        have "calm_step ?s2 s3"
          using getPreviousRoll_quiet [of ?s2 ?p] g by (simp add: quiet_step_calm)
        with c2 have c3: "calm_step ?s1 s3" by (rule calm_step_trans)
        have "calm_step s3 s4" using drawRoll_quiet [of s3 ?p w] d by (simp add: quiet_step_calm)
        with c3 have c4: "calm_step ?s1 s4" by (rule calm_step_trans)
        from Response True JsonBody g d c3 c4 show ?thesis
          by (cases dr) (simp_all add: checkChance_def Let_def calm_step_emit)
      qed
    qed
  qed
qed

lemma checkChance_calm: "calm_step s (snd (checkChance i v w s))"
proof -
  have "calm_step s (emit (HttpGet ChanceEndpoint (''/'' @ v @ ''.chance'')) s)"
    by (simp add: calm_step_emit)
  then show ?thesis using checkChance_calm_after_request by (rule calm_step_trans)
qed

lemma checkChance_requested: "requested ChanceEndpoint (trace (snd (checkChance i v w s)))"
proof -
  have "requested ChanceEndpoint (trace (emit (HttpGet ChanceEndpoint (''/'' @ v @ ''.chance'')) s))"
    by (simp add: requested_append) (simp add: requested_def)
  with checkChance_calm_after_request show ?thesis by (rule calm_step_requested)
qed

lemma fetchUpdater_calm: "calm_step s (snd (fetchUpdater i w s))"
  by (simp add: fetchUpdater_def Let_def calm_step_emit split: http.splits sum.splits)

lemma ensureDir_upto_quiet: "quiet_step s (snd (ensureDir_upto k d ds s))"
proof (induction ds arbitrary: k d s)
  case Nil
  show ?case by simp
next
  case (Cons x xs)
  show ?case
  proof (cases k)
    case 0
    then show ?thesis by simp
  next
    case (Suc j)
    obtain r s1 where m: "mkdirMaybe (d @ [x]) s = (r, s1)" by (cases "mkdirMaybe (d @ [x]) s")
    have q: "quiet_step s s1" using mkdirMaybe_quiet [of s "d @ [x]"] m by simp
    show ?thesis
    proof (cases r)
      case (Inl e)
      with m q Suc show ?thesis by simp
    next
      case (Inr u)
      from q Cons.IH [of s1 j "d @ [x]"]
      have "quiet_step s (snd (ensureDir_upto j (d @ [x]) xs s1))" by (rule quiet_step_trans)
      with m Inr Suc show ?thesis by simp
    qed
  qed
qed

lemma ensureDir_start_quiet: "quiet_step s (snd (ensureDir_start k p s))"
  by (simp add: ensureDir_start_def ensureDir_upto_quiet split: list.splits)

lemma ensureDir_resume_quiet: "quiet_step s (ensureDir_resume t s)"
proof (cases t)
  case Finished
  then show ?thesis by (simp add: ensureDir_resume_def)
next
  case (Crashed e)
  then show ?thesis by (simp add: ensureDir_resume_def quiet_step_emit)
next
  case (Suspended directory ds)
  obtain r s1 where l: "ensureDir_loop directory ds s = (r, s1)"
    by (cases "ensureDir_loop directory ds s")
  have "quiet_step s s1" using ensureDir_loop_quiet [of s directory ds] l by simp
  with Suspended l show ?thesis
    by (cases r) (simp_all add: ensureDir_resume_def quiet_step_emit)
qed

subsection \<open>The second half of the entry point\<close>

lemma openStatusWindow_spawned: "spawned (trace (openStatusWindow w s)) = spawned (trace s)"
  by (simp add: openStatusWindow_def closeStatusWindow_def spawned_append split: window_outcome.splits)
     (simp add: spawned_def)

lemma openStatusWindow_requested:
  "requested ep (trace (openStatusWindow w s)) = requested ep (trace s)"
  by (simp add: openStatusWindow_def closeStatusWindow_def requested_append split: window_outcome.splits)
     (simp add: requested_def)

lemma closeStatusWindow_closes:
  "window_tracked s \<Longrightarrow> \<not> window_left_open (trace (closeStatusWindow s))"
  by (simp add: closeStatusWindow_def window_tracked_def window_left_open_append window_step_def
      split: if_splits)

lemma openStatusWindow_tracked: "window_tracked s \<Longrightarrow> window_tracked (openStatusWindow w s)"
  by (cases "window w")
     (auto simp: openStatusWindow_def closeStatusWindow_def window_tracked_def
        window_left_open_append window_step_def split: if_splits)

lemma calm_step_tracked: "calm_step s s' \<Longrightarrow> window_tracked s \<Longrightarrow> window_tracked s'"
  using calm_step_window [of s s'] calm_step_statusWindow [of s s']
  by (simp add: window_tracked_def)

lemma emit_tracked: "calm e \<Longrightarrow> window_tracked s \<Longrightarrow> window_tracked (emit e s)"
  by (rule calm_step_tracked [of s]) (simp_all add: calm_step_emit)

text \<open>\<open>launch\<close> is the download followed by the hand-over.\<close>

lemma launch_split:
  "launch i v w s = launch_finish i v w (fst (launch_download i w s)) (snd (launch_download i w s))"
  by (simp add: launch_def launch_download_def launch_finish_def Let_def
      split: prod.splits promise.splits sum.splits)

lemma launch_download_calm: "calm_step (openStatusWindow w s) (snd (launch_download i w s))"
proof -
  let ?s1 = "openStatusWindow w s"
  obtain t s2 where a: "ensureDir_start (mkdirs_before_open w) (tempDir i) ?s1 = (t, s2)"
    by (cases "ensureDir_start (mkdirs_before_open w) (tempDir i) ?s1")
  obtain r s3 where b: "fetchUpdater i w s2 = (r, s3)" by (cases "fetchUpdater i w s2")
  have "calm_step ?s1 s2"
    using ensureDir_start_quiet [of ?s1 "mkdirs_before_open w" "tempDir i"] a
    by (simp add: quiet_step_calm)
  moreover have "calm_step s2 s3" using fetchUpdater_calm [of s2 i w] b by simp
  moreover have "calm_step s3 (ensureDir_resume t s3)"
    by (simp add: ensureDir_resume_quiet quiet_step_calm)
  ultimately have "calm_step ?s1 (ensureDir_resume t s3)" by (metis calm_step_trans)
  with a b show ?thesis by (simp add: launch_download_def Let_def)
qed

lemma fetchUpdater_pending:
  "fst (fetchUpdater i w s) = Pending \<Longrightarrow> binary_response w = TransportError"
  by (auto simp: fetchUpdater_def Let_def split: http.splits sum.splits if_splits)

lemma fetchUpdater_non_200:
  "binary_response w = Response code body \<Longrightarrow> code \<noteq> 200 \<Longrightarrow> \<exists>e. fst (fetchUpdater i w s) = Rejected e"
  by (auto simp: fetchUpdater_def Let_def split: http.splits sum.splits if_splits)

lemma launch_download_result:
  "\<exists>s2. fst (launch_download i w s) = fst (fetchUpdater i w s2)"
proof -
  obtain t s2 where a: "ensureDir_start (mkdirs_before_open w) (tempDir i) (openStatusWindow w s) = (t, s2)"
    by (cases "ensureDir_start (mkdirs_before_open w) (tempDir i) (openStatusWindow w s)")
  obtain r s3 where b: "fetchUpdater i w s2 = (r, s3)" by (cases "fetchUpdater i w s2")
  from a b have "fst (launch_download i w s) = fst (fetchUpdater i w s2)"
    by (simp add: launch_download_def Let_def)
  then show ?thesis ..
qed

lemma launch_download_pending:
  assumes "fst (launch_download i w s) = Pending"
  shows "binary_response w = TransportError"
proof -
  from launch_download_result [of i w s] obtain s2
    where "fst (launch_download i w s) = fst (fetchUpdater i w s2)" ..
  with assms have "fst (fetchUpdater i w s2) = Pending" by simp
  then show ?thesis by (rule fetchUpdater_pending)
qed

lemma launch_download_non_200:
  assumes "binary_response w = Response code body" and "code \<noteq> 200"
  shows "\<exists>e. fst (launch_download i w s) = Rejected e"
proof -
  from launch_download_result [of i w s] obtain s2
    where "fst (launch_download i w s) = fst (fetchUpdater i w s2)" ..
  with fetchUpdater_non_200 [OF assms, of i s2] show ?thesis by simp
qed

lemma spawned_Nil: "spawned [] = False"
  by (simp add: spawned_def)

lemma spawned_Cons: "spawned (e # es) = (is_spawn e \<or> spawned es)"
  by (simp add: spawned_def)

lemma requested_Nil: "requested ep [] = False"
  by (simp add: requested_def)

lemma requested_Cons: "requested ep (e # es) = (is_request ep e \<or> requested ep es)"
  by (simp add: requested_def)

lemmas spawned_simps = spawned_append spawned_Cons spawned_Nil

lemmas requested_simps = requested_append requested_Cons requested_Nil

lemma closeStatusWindow_spawned: "spawned (trace (closeStatusWindow s)) = spawned (trace s)"
  by (simp add: closeStatusWindow_def spawned_simps)

lemma closeStatusWindow_requested:
  "requested ep (trace (closeStatusWindow s)) = requested ep (trace s)"
  by (simp add: closeStatusWindow_def requested_simps)

lemma emit_tracked_any: "e \<noteq> WindowCreated \<Longrightarrow> window_tracked s \<Longrightarrow> window_tracked (emit e s)"
  by (auto simp: window_tracked_def window_left_open_append window_step_def)

lemma launch_spawned:
  assumes "\<not> spawned (trace s)"
  shows "spawned (trace (snd (launch i v w s))) = (fst (launch i v w s) = Resolved True)"
proof -
  define r where "r = fst (launch_download i w s)"
  define s4 where "s4 = snd (launch_download i w s)"
  have c: "calm_step (openStatusWindow w s) s4"
    unfolding s4_def by (rule launch_download_calm)
  have l: "launch i v w s = launch_finish i v w r s4"
    unfolding r_def s4_def by (rule launch_split)
  from c assms have n: "\<not> spawned (trace s4)"
    by (simp add: calm_step_spawned openStatusWindow_spawned)
  show ?thesis
    unfolding l using n
    by (simp add: launch_finish_def Let_def closeStatusWindow_spawned spawned_simps
        split: promise.splits sum.splits)
qed

lemma launch_requested:
  assumes "requested ep (trace s)"
  shows "requested ep (trace (snd (launch i v w s)))"
proof -
  define r where "r = fst (launch_download i w s)"
  define s4 where "s4 = snd (launch_download i w s)"
  have c: "calm_step (openStatusWindow w s) s4"
    unfolding s4_def by (rule launch_download_calm)
  have l: "launch i v w s = launch_finish i v w r s4"
    unfolding r_def s4_def by (rule launch_split)
  from assms have "requested ep (trace (openStatusWindow w s))"
    by (simp add: openStatusWindow_requested)
  with c have n: "requested ep (trace s4)" by (rule calm_step_requested)
  show ?thesis
    unfolding l using n
    by (simp add: launch_finish_def Let_def closeStatusWindow_requested requested_simps
        split: promise.splits sum.splits)
qed

lemma launch_window:
  assumes "window_tracked s"
  shows "window_tracked (snd (launch i v w s))
    \<and> (fst (launch i v w s) = Resolved True \<longrightarrow> \<not> window_left_open (trace (snd (launch i v w s))))"
proof -
  define r where "r = fst (launch_download i w s)"
  define s4 where "s4 = snd (launch_download i w s)"
  have c: "calm_step (openStatusWindow w s) s4"
    unfolding s4_def by (rule launch_download_calm)
  have l: "launch i v w s = launch_finish i v w r s4"
    unfolding r_def s4_def by (rule launch_split)
  from assms have "window_tracked (openStatusWindow w s)" by (rule openStatusWindow_tracked)
  with c have t: "window_tracked s4" by (rule calm_step_tracked)
  have t1: "window_tracked (emit (Log x) s4)" for x using t by (simp add: emit_tracked)
  have t2: "\<not> window_left_open (trace (closeStatusWindow (emit (Spawned p a d) (emit (Log x) s4))))"
    for p a d x
    using t by (intro closeStatusWindow_closes emit_tracked_any) simp_all
  have t3: "window_tracked s'" if "\<not> window_left_open (trace s')" for s'
    using that by (simp add: window_tracked_def)
  show ?thesis
    unfolding l using t t1 t2 t3
    by (simp add: launch_finish_def Let_def split: promise.splits sum.splits)
qed

lemma launch_never_false: "fst (launch i v w s) \<noteq> Resolved False"
  by (simp add: launch_split [of i v w s] launch_finish_def Let_def
      split: promise.splits sum.splits)

lemma launch_settles:
  "binary_response w \<noteq> TransportError \<Longrightarrow> fst (launch i v w s) \<noteq> Pending"
  using launch_download_pending [of i w s]
  by (auto simp: launch_split [of i v w s] launch_finish_def Let_def
      split: promise.splits sum.splits if_splits)

lemma launch_fails_on_non_200:
  "binary_response w = Response code body \<Longrightarrow> code \<noteq> 200 \<Longrightarrow> \<exists>e. fst (launch i v w s) = Rejected e"
  using launch_download_non_200 [of w code body i s]
  by (auto simp: launch_split [of i v w s] launch_finish_def Let_def)

text \<open>\<open>entry\<close> either stops before the window is created or continues with \<open>launch\<close>.\<close>

lemma entry_shape:
  "(\<exists>s'. calm_step s s' \<and> (entry i w s = (Resolved False, s') \<or> (\<exists>e. entry i w s = (Rejected e, s'))))
   \<or> (\<exists>v s2. calm_step s s2 \<and> entry i w s = launch i v w s2)"
proof -
  obtain rv s1 where g: "getVersion i w s = (rv, s1)" by (cases "getVersion i w s")
  have c1: "calm_step s s1" using getVersion_calm [of s i w] g by simp
  show ?thesis
  proof (cases rv)
    case (Inl e)
    with g c1 show ?thesis by (auto simp: entry_def)
  next
    case (Inr latestVersion)
    let ?v = "version_string latestVersion"
    obtain rc s2 where k: "checkChance i ?v w s1 = (rc, s2)" by (cases "checkChance i ?v w s1")
    have "calm_step s1 s2" using checkChance_calm [of s1 i ?v w] k by simp
    with c1 have c2: "calm_step s s2" by (rule calm_step_trans)
    have c3: "calm_step s (emit (Log x) s1)" for x using c1 by (simp add: calm_step_emit)
    have c4: "calm_step s (emit (Log x) s2)" for x using c2 by (simp add: calm_step_emit)
    show ?thesis
      unfolding entry_def g Inr using c1 c2 c3 c4 k
      by (auto split: sum.splits bool.splits)
  qed
qed

lemma module_exports_spawned:
  assumes "\<not> spawned (trace s)"
  shows "spawned (trace (snd (module_exports i w s))) = (fst (module_exports i w s) = Resolved True)"
proof -
  from entry_shape [of s i w] show ?thesis
  proof (elim disjE exE conjE)
    fix s' assume "calm_step s s'" and "entry i w s = (Resolved False, s')"
    with assms show ?thesis by (simp add: module_exports_def calm_step_spawned)
  next
    fix s' e assume "calm_step s s'" and "entry i w s = (Rejected e, s')"
    with assms show ?thesis
      by (simp add: module_exports_def calm_step_spawned closeStatusWindow_spawned spawned_simps)
  next
    fix v s2 assume c: "calm_step s s2" and e: "entry i w s = launch i v w s2"
    from c assms have "\<not> spawned (trace s2)" by (simp add: calm_step_spawned)
    from launch_spawned [OF this, of i v w] e show ?thesis
      by (cases "launch i v w s2")
         (auto simp: module_exports_def closeStatusWindow_spawned spawned_simps split: promise.splits)
  qed
qed

lemma module_exports_settles:
  assumes "binary_response w \<noteq> TransportError"
  shows "\<exists>b. fst (module_exports i w s) = Resolved b"
proof -
  from entry_shape [of s i w] show ?thesis
  proof (elim disjE exE conjE)
    fix s' assume "entry i w s = (Resolved False, s')"
    then show ?thesis by (auto simp: module_exports_def)
  next
    fix s' e assume "entry i w s = (Rejected e, s')"
    then show ?thesis by (auto simp: module_exports_def)
  next
    fix v s2 assume e: "entry i w s = launch i v w s2"
    with launch_settles [OF assms, of i v s2] show ?thesis
      by (cases "launch i v w s2") (auto simp: module_exports_def split: promise.splits)
  qed
qed

lemma module_exports_window:
  assumes "\<not> window_left_open (trace s)" and "fst (module_exports i w s) = Resolved b"
  shows "\<not> window_left_open (trace (snd (module_exports i w s)))"
proof -
  from assms(1) have t: "window_tracked s" by (simp add: window_tracked_def)
  have close: "\<not> window_left_open (trace (closeStatusWindow (emit (Log x) s')))"
    if "window_tracked s'" for x s'
    using that by (intro closeStatusWindow_closes emit_tracked) simp_all
  from entry_shape [of s i w] show ?thesis
  proof (elim disjE exE conjE)
    fix s' assume "calm_step s s'" and "entry i w s = (Resolved False, s')"
    with assms(1) show ?thesis by (simp add: module_exports_def calm_step_window)
  next
    fix s' e assume c: "calm_step s s'" and "entry i w s = (Rejected e, s')"
    with close [OF calm_step_tracked [OF c t]] show ?thesis by (simp add: module_exports_def)
  next
    fix v s2 assume c: "calm_step s s2" and e: "entry i w s = launch i v w s2"
    from launch_window [OF calm_step_tracked [OF c t], of i v w] e assms(2) close
      launch_never_false [of i v w s2]
    show ?thesis
      by (cases "launch i v w s2") (auto simp: module_exports_def split: promise.splits)
  qed
qed

lemma module_exports_non_200:
  assumes "binary_response w = Response code body" and "code \<noteq> 200"
  shows "fst (module_exports i w s) = Resolved False"
proof -
  from entry_shape [of s i w] show ?thesis
  proof (elim disjE exE conjE)
    fix s' assume "entry i w s = (Resolved False, s')"
    then show ?thesis by (simp add: module_exports_def)
  next
    fix s' e assume "entry i w s = (Rejected e, s')"
    then show ?thesis by (simp add: module_exports_def)
  next
    fix v s2 assume e: "entry i w s = launch i v w s2"
    with launch_fails_on_non_200 [OF assms, of i v s2] show ?thesis
      by (cases "launch i v w s2") (auto simp: module_exports_def)
  qed
qed

lemma module_exports_requested:
  assumes "requested ep (trace (snd (entry i w s)))"
  shows "requested ep (trace (snd (module_exports i w s)))"
proof (cases "entry i w s")
  case (Pair r s')
  with assms show ?thesis
    by (cases r) (simp_all add: module_exports_def closeStatusWindow_requested requested_simps)
qed

lemma entry_valid_versions:
  assumes "version i = Valid cr cv"
    and "version_response w = Response 200 (VersionBody (Valid rr rv))"
  shows "entry i w s =
     (if compare cv rv = 0
      then (Resolved False, emit (Log AlreadyLatest) (emit (HttpGet VersionEndpoint (''/'' @ versionFileName i)) s))
      else if 0 < compare cv rv
      then (Resolved False, emit (Log LatestIsLess) (emit (HttpGet VersionEndpoint (''/'' @ versionFileName i)) s))
      else (case checkChance i rr w (emit (HttpGet VersionEndpoint (''/'' @ versionFileName i)) s) of
              (Inl e, s2) \<Rightarrow> (Rejected e, s2)
            | (Inr False, s2) \<Rightarrow> (Resolved False, emit (Log FailedLottery) s2)
            | (Inr True, s2) \<Rightarrow> launch i rr w s2))"
  using assms
  by (simp add: entry_def getVersion_def Let_def js_falsy_def semver_eq_def semver_gt_def
      semver_compare_def version_string_def split: prod.splits sum.splits bool.splits)

lemma entry_requests_chance:
  assumes "version i = Valid cr cv"
    and "version_response w = Response 200 (VersionBody (Valid rr rv))"
    and "compare cv rv < 0"
  shows "requested ChanceEndpoint (trace (snd (entry i w s)))"
proof -
  let ?s1 = "emit (HttpGet VersionEndpoint (''/'' @ versionFileName i)) s"
  obtain rc s2 where k: "checkChance i rr w ?s1 = (rc, s2)" by (cases "checkChance i rr w ?s1")
  have r: "requested ChanceEndpoint (trace s2)"
    using checkChance_requested [of i rr w ?s1] k by simp
  have e: "entry i w s =
     (case (rc, s2) of
        (Inl e, s2) \<Rightarrow> (Rejected e, s2)
      | (Inr False, s2) \<Rightarrow> (Resolved False, emit (Log FailedLottery) s2)
      | (Inr True, s2) \<Rightarrow> launch i rr w s2)"
    unfolding entry_valid_versions [OF assms(1,2)] k using assms(3) by simp
  show ?thesis
  proof (cases rc)
    case (Inl x)
    with e r show ?thesis by simp
  next
    case (Inr b)
    with e r launch_requested [OF r, of i rr w] show ?thesis
      by (cases b) (simp_all add: requested_simps)
  qed
qed

subsection \<open>What a failed download leaves behind\<close>

lemma ensureDir_resume_files: "files (fs (ensureDir_resume t s)) = files (fs s)"
proof (cases t)
  case Finished
  then show ?thesis by (simp add: ensureDir_resume_def)
next
  case (Crashed e)
  then show ?thesis by (simp add: ensureDir_resume_def)
next
  case (Suspended directory ds)
  obtain r s1 where l: "ensureDir_loop directory ds s = (r, s1)"
    by (cases "ensureDir_loop directory ds s")
  have "files (fs s1) = files (fs s)" using ensureDir_loop_files [of directory ds s] l by simp
  with Suspended l show ?thesis by (cases r) (simp_all add: ensureDir_resume_def)
qed

lemma fetchUpdater_status_file:
  assumes "binary_response w = Response code body"
    and "fst (fetchUpdater i w s) = Rejected (FetchFailed code)"
  shows "files (fs (snd (fetchUpdater i w s))) (tempDir i @ [''latest-updater.exe'']) = Some body"
  using assms by (auto simp: fetchUpdater_def Let_def split: sum.splits if_splits)

lemma launch_status_file:
  assumes "binary_response w = Response code body"
    and "fst (launch i v w s) = Rejected (FetchFailed code)"
  shows "files (fs (snd (launch i v w s))) (tempDir i @ [''latest-updater.exe'']) = Some body"
proof -
  let ?s1 = "openStatusWindow w s"
  obtain t s2 where a: "ensureDir_start (mkdirs_before_open w) (tempDir i) ?s1 = (t, s2)"
    by (cases "ensureDir_start (mkdirs_before_open w) (tempDir i) ?s1")
  obtain r s3 where b: "fetchUpdater i w s2 = (r, s3)" by (cases "fetchUpdater i w s2")
  have d: "launch_download i w s = (r, ensureDir_resume t s3)"
    using a b by (simp add: launch_download_def Let_def)
  have l: "launch i v w s = launch_finish i v w r (ensureDir_resume t s3)"
    using launch_split [of i v w s] d by simp
  have r: "r = Rejected (FetchFailed code)"
    using assms(2) l
    by (auto simp: launch_finish_def Let_def split: promise.splits sum.splits if_splits
        elim: push_waitPids.elims)
  with b have "fst (fetchUpdater i w s2) = Rejected (FetchFailed code)" by simp
  from fetchUpdater_status_file [OF assms(1) this] b
  have "files (fs s3) (tempDir i @ [''latest-updater.exe'']) = Some body" by simp
  then have "files (fs (ensureDir_resume t s3)) (tempDir i @ [''latest-updater.exe'']) = Some body"
    by (simp add: ensureDir_resume_files)
  with l r show ?thesis by (simp add: launch_finish_def)
qed

subsection \<open>Creating the directory of the roll cache\<close>








subsection \<open>Evaluating the examples\<close>

lemma show_nat_38: "show_nat 38 = ''38''"
  by (simp add: show_nat.simps [of 38] show_nat.simps [of 3] digit_char_def)

lemmas parse_defs = parseInt_def trimStart.simps is_space_def unicode_spaces_def in_radix_def
  digit_val_def digit_of_def

lemmas gate_defs = checkChance_def getPreviousRoll_def fs_readFile_def drawRoll_def
  ensureDir_def mkdirMaybe_def fs_mkdir_def writeFile_def fs_writeFile_def roll_le_chance_def
  emit_def Let_def initial_def show_int_def show_nat_38

lemmas ex_defs = ex_info_def ex_world_def ex_fs_def ex_fs_roll_def ex_fs_temp_def ex_version_def

lemmas run_defs = module_exports_def entry_def getVersion_def js_falsy_def semver_eq_def
  semver_gt_def semver_compare_def compare_def compareMain_def comparePre_def version_string_def
  launch_def openStatusWindow_def closeStatusWindow_def ensureDir_start_def ensureDir_resume_def
  fetchUpdater_def initialArgs_def ex_world_ungated_def numeral_2_eq_2

section \<open>The claims\<close>

text \<open>
  C1. The temp directory exists, and the request for the binary fails before any response
  (the connection is refused or reset). None of the callbacks that settle the promise of
  \<open>fetchUpdater\<close> runs, so \<open>entry\<close> never settles and \<open>module.exports\<close> never
  resolves: the caller receives no boolean, the status window is created and never closed,
  and the \<open>error\<close> event of the request, which has no listener, is thrown by the
  runtime. This is so whether or not the first \<open>mkdir\<close> of \<open>ensureDir\<close> is done when
  the write stream opens.
\<close>

theorem request_error_never_resolves:
  "fst (module_exports ex_info (ex_world_ungated\<lparr>binary_response := TransportError\<rparr>)
          (initial ex_fs_temp)) = Pending
   \<and> trace (snd (module_exports ex_info (ex_world_ungated\<lparr>binary_response := TransportError\<rparr>)
          (initial ex_fs_temp)))
       = [HttpGet VersionEndpoint ''/latest.json'',
          HttpGet ChanceEndpoint ''/1.2.0.chance'',
          Log NoChanceFile,
          WindowCreated,
          FsMkdir [''C:'', ''Temp''],
          FsOpenWrite [''C:'', ''Temp'', ''updater'', ''latest-updater.exe''],
          HttpGet BinaryEndpoint ''/latest-updater.exe'',
          UncaughtException TransportFailure,
          FsMkdir [''C:'', ''Temp'', ''updater'']]
   \<and> window_left_open (trace (snd (module_exports ex_info
          (ex_world_ungated\<lparr>binary_response := TransportError\<rparr>) (initial ex_fs_temp))))
   \<and> fst (module_exports ex_info
          (ex_world_ungated\<lparr>binary_response := TransportError, mkdirs_before_open := 0\<rparr>)
          (initial ex_fs_temp)) = Pending
   \<and> window_left_open (trace (snd (module_exports ex_info
          (ex_world_ungated\<lparr>binary_response := TransportError, mkdirs_before_open := 0\<rparr>)
          (initial ex_fs_temp))))"
  by (simp add: run_defs gate_defs ex_defs window_left_open_def window_step_def)

text \<open>
  C2. With the current version a semantic version: when the version endpoint answers 200
  with a semantic version, the run asks the chance endpoint exactly when the remote
  version is greater than the current one (\<open>semver.gt(remote, current)\<close>, that is
  \<open>0 < compare remote current\<close>), and otherwise it resolves to false; when the version
  request fails, answers another status or carries no version, the run resolves to false
  and the chance endpoint is never asked.
\<close>

theorem gate_reached_iff_remote_greater:
  assumes "version i = Valid cr cv"
  shows "(version_response w = Response 200 (VersionBody (Valid rr rv)) \<longrightarrow>
            (requested ChanceEndpoint (trace (snd (module_exports i w (initial f))))
               \<longleftrightarrow> 0 < compare rv cv)
            \<and> (\<not> 0 < compare rv cv \<longrightarrow> fst (module_exports i w (initial f)) = Resolved False))
    \<and> (no_version (version_response w) \<longrightarrow>
            fst (module_exports i w (initial f)) = Resolved False
            \<and> \<not> requested ChanceEndpoint (trace (snd (module_exports i w (initial f)))))"
proof (intro conjI impI)
  assume v: "version_response w = Response 200 (VersionBody (Valid rr rv))"
  note e = entry_valid_versions [OF assms v, of "initial f"]
  have flip: "compare rv cv = - compare cv rv" by (rule compare_flip)
  show "requested ChanceEndpoint (trace (snd (module_exports i w (initial f)))) \<longleftrightarrow> 0 < compare rv cv"
  proof (cases "compare cv rv < 0")
    case True
    from entry_requests_chance [OF assms v True, of "initial f"]
    have "requested ChanceEndpoint (trace (snd (module_exports i w (initial f))))"
      by (rule module_exports_requested)
    with True flip show ?thesis by simp
  next
    case False
    with flip have n: "\<not> 0 < compare rv cv" by simp
    from False have "\<not> requested ChanceEndpoint (trace (snd (module_exports i w (initial f))))"
      unfolding module_exports_def e by (simp add: initial_def requested_simps)
    with n show ?thesis by simp
  qed
  show "fst (module_exports i w (initial f)) = Resolved False" if "\<not> 0 < compare rv cv"
    unfolding module_exports_def e using that flip by simp
next
  assume n: "no_version (version_response w)"
  then show "fst (module_exports i w (initial f)) = Resolved False"
    by (auto simp: no_version_def module_exports_def entry_def getVersion_def js_falsy_def Let_def
        split: http.splits version_body.splits)
  from n show "\<not> requested ChanceEndpoint (trace (snd (module_exports i w (initial f))))"
    by (auto simp: no_version_def module_exports_def entry_def getVersion_def js_falsy_def Let_def
        initial_def closeStatusWindow_def requested_simps
        split: http.splits version_body.splits)
qed

theorem gate_reached_iff_remote_greater_witness:
  "requested ChanceEndpoint (trace (snd (module_exports ex_info ex_world (initial ex_fs))))
   \<and> fst (module_exports ex_info
        (ex_world\<lparr>version_response := Response 200 (VersionBody (Valid ''1.0.0'' (ex_version 1 0 0)))\<rparr>)
        (initial ex_fs)) = Resolved False
   \<and> fst (module_exports ex_info
        (ex_world\<lparr>version_response := Response 200 (VersionBody (Valid ''0.9.3'' (ex_version 0 9 3)))\<rparr>)
        (initial ex_fs)) = Resolved False
   \<and> fst (module_exports ex_info (ex_world\<lparr>version_response := Response 404 NoBody\<rparr>) (initial ex_fs))
        = Resolved False"
proof -
  have v: "version ex_info = Valid ''1.0.0'' (ex_version 1 0 0)" by (simp add: ex_info_def)
  have c: "0 < compare (ex_version 1 2 0) (ex_version 1 0 0)"
    "\<not> 0 < compare (ex_version 1 0 0) (ex_version 1 0 0)"
    "\<not> 0 < compare (ex_version 0 9 3) (ex_version 1 0 0)"
    by (simp_all add: compare_def compareMain_def comparePre_def ex_version_def)
  show ?thesis
    using gate_reached_iff_remote_greater [OF v, of ex_world "''1.2.0''" "ex_version 1 2 0" ex_fs]
      gate_reached_iff_remote_greater [OF v,
        of "ex_world\<lparr>version_response := Response 200 (VersionBody (Valid ''1.0.0'' (ex_version 1 0 0)))\<rparr>"
           "''1.0.0''" "ex_version 1 0 0" ex_fs]
      gate_reached_iff_remote_greater [OF v,
        of "ex_world\<lparr>version_response := Response 200 (VersionBody (Valid ''0.9.3'' (ex_version 0 9 3)))\<rparr>"
           "''0.9.3''" "ex_version 0 9 3" ex_fs]
      gate_reached_iff_remote_greater [OF v,
        of "ex_world\<lparr>version_response := Response 404 NoBody\<rparr>" "''''" "ex_version 0 0 0" ex_fs]
      c
    by (simp add: ex_world_def no_version_def)
qed

text \<open>
  C3. Two runs of the gate for the same version and cache directory, the second on the
  file system the first one left, the chance endpoint answering 200 both times with
  whatever chance: when both return, they log the same roll.
\<close>

theorem gate_rolls_once_per_version:
  assumes "chance_response w1 = Response 200 b1" and "chance_response w2 = Response 200 b2"
    and "0 \<le> random w1" and "random w1 < 1"
    and "fst (checkChance i v w1 s) = Inr e1"
    and "fst (checkChance i v w2 (snd (checkChance i v w1 s))) = Inr e2"
  shows "rolls (trace (snd (checkChance i v w2 (snd (checkChance i v w1 s)))))
           = rolls (trace s) @ [gate_roll i v w1 s, gate_roll i v w1 s]"
proof -
  let ?p = "rollCachePath i v"
  let ?s1 = "snd (checkChance i v w1 s)"
  from checkChance_body [OF assms(1,5)] obtain c1 where b1: "chance_response w1 = Response 200 (JsonBody c1)"
    using assms(1) by auto
  from checkChance_body [OF assms(2,6)] obtain c2 where b2: "chance_response w2 = Response 200 (JsonBody c2)"
    using assms(2) by auto
  note run1 = checkChance_roll [OF b1 assms(5)]
  note run2 = checkChance_roll [OF b2 assms(6)]
  have same: "cached_roll ?p (fs ?s1) = gate_roll i v w1 s \<and> gate_roll i v w1 s \<noteq> 0"
  proof (cases "cached_roll ?p (fs s) = 0")
    case False
    with run1(5) show ?thesis by (simp add: gate_roll_def)
  next
    case True
    from fresh_roll_range [OF assms(3,4)] have pos: "0 \<le> fresh_roll w1" "fresh_roll w1 \<noteq> 0" by simp_all
    from run1(6) [OF True] have "fs_readFile ?p (fs ?s1) = Inr (show_int (fresh_roll w1))" by simp
    then have "cached_roll ?p (fs ?s1) = fresh_roll w1"
      using parseInt_show_int [OF pos(1)] by (simp add: cached_roll_def)
    with True pos show ?thesis by (simp add: gate_roll_def)
  qed
  then have "gate_roll i v w2 ?s1 = gate_roll i v w1 s" by (simp add: gate_roll_def)
  with run1(4) run2(4) show ?thesis by simp
qed

theorem gate_rolls_once_per_version_witness:
  "fst (checkChance ex_info ''1.2.0'' ex_world (initial ex_fs)) = Inr True
   \<and> fst (checkChance ex_info ''1.2.0''
        (ex_world\<lparr>chance_response := Response 200 (JsonBody (Some 10)), random := 9 / 10\<rparr>)
        (snd (checkChance ex_info ''1.2.0'' ex_world (initial ex_fs)))) = Inr False
   \<and> rolls (trace (snd (checkChance ex_info ''1.2.0''
        (ex_world\<lparr>chance_response := Response 200 (JsonBody (Some 10)), random := 9 / 10\<rparr>)
        (snd (checkChance ex_info ''1.2.0'' ex_world (initial ex_fs)))))) = [38, 38]"
proof -
  let ?w2 = "ex_world\<lparr>chance_response := Response 200 (JsonBody (Some 10)), random := 9 / 10\<rparr>"
  have c1: "chance_response ex_world = Response 200 (JsonBody (Some 50))"
    and r: "0 \<le> random ex_world" "random ex_world < 1"
    by (simp_all add: ex_world_def)
  have c2: "chance_response ?w2 = Response 200 (JsonBody (Some 10))" by simp
  have ok1: "fst (checkChance ex_info ''1.2.0'' ex_world (initial ex_fs)) = Inr True"
    by (simp add: gate_defs ex_defs parse_defs)
  have ok2: "fst (checkChance ex_info ''1.2.0'' ?w2
        (snd (checkChance ex_info ''1.2.0'' ex_world (initial ex_fs)))) = Inr False"
    by (simp add: gate_defs ex_defs parse_defs)
  have g: "gate_roll ex_info ''1.2.0'' ex_world (initial ex_fs) = 38"
    by (simp add: gate_roll_def cached_roll_def rollCachePath_def fresh_roll_def
        fs_readFile_def initial_def ex_defs)
  have t: "trace (initial ex_fs) = []" by (simp add: initial_def)
  show ?thesis
    using gate_rolls_once_per_version [OF c1 c2 r ok1 ok2] ok1 ok2 g t by simp
qed

text \<open>
  C4. The temp directory exists and the download succeeds. With \<open>waitPids = [111, 222]\<close>
  the loop over \<open>waitPids\<close> throws at its first iteration (\<open>updaterArgs.push_back\<close>
  is not a function): no argument list reaches \<open>spawn\<close>, nothing is spawned and the run
  resolves to false. With no wait pid the updater is spawned with the quoted arguments
  and no \<open>-p\<close>.
\<close>

theorem wait_pids_abort_the_launch:
  "push_waitPids (initialArgs ex_info ''1.2.0'') [111, 222]
     = Inl (TypeError ''updaterArgs.push_back is not a function'')
   \<and> fst (module_exports (ex_info\<lparr>waitPids := [111, 222]\<rparr>) ex_world_ungated (initial ex_fs_temp))
       = Resolved False
   \<and> \<not> spawned (trace (snd (module_exports (ex_info\<lparr>waitPids := [111, 222]\<rparr>) ex_world_ungated
         (initial ex_fs_temp))))
   \<and> last (butlast (trace (snd (module_exports (ex_info\<lparr>waitPids := [111, 222]\<rparr>) ex_world_ungated
         (initial ex_fs_temp)))))
       = Log (Caught (TypeError ''updaterArgs.push_back is not a function''))
   \<and> fst (module_exports (ex_info\<lparr>waitPids := [111, 222]\<rparr>)
         (ex_world_ungated\<lparr>mkdirs_before_open := 0\<rparr>) (initial ex_fs_temp))
       = Resolved False
   \<and> last (butlast (trace (snd (module_exports (ex_info\<lparr>waitPids := [111, 222]\<rparr>)
         (ex_world_ungated\<lparr>mkdirs_before_open := 0\<rparr>) (initial ex_fs_temp)))))
       = Log (Caught (TypeError ''updaterArgs.push_back is not a function''))
   \<and> fst (module_exports ex_info ex_world_ungated (initial ex_fs_temp)) = Resolved True
   \<and> last (butlast (trace (snd (module_exports ex_info ex_world_ungated (initial ex_fs_temp)))))
       = Spawned [''C:'', ''Temp'', ''updater'', ''latest-updater.exe'']
           [''--base-url'', quoted ''https://updates.example'',
            ''--version'', quoted ''1.2.0'',
            ''--exec'', quoted ''C:/Program Files/App/app.exe'',
            ''--cwd'', quoted ''C:/Program Files/App'',
            ''--app-dir'', quoted ''C:/Program Files/App'',
            ''--force-temp'']
           [''C:'', ''Temp'', ''updater'']"
  by (simp add: run_defs gate_defs ex_defs spawned_simps)

text \<open>
  C5. When the chance endpoint answers 200 with an integer chance and the gate returns,
  the roll it logs is the roll it compares, and it returns true exactly when that roll is
  at most the chance; equality counts as eligible. With chance 100 every roll from 1 to
  100 is eligible.
\<close>

theorem gate_eligible_iff_roll_le_chance:
  assumes "chance_response w = Response 200 (JsonBody (Some chance))"
    and "fst (checkChance i v w s) = Inr eligible"
  shows "last (trace (snd (checkChance i v w s))) = Log (YouRolled (gate_roll i v w s))
    \<and> (eligible \<longleftrightarrow> gate_roll i v w s \<le> chance)
    \<and> (chance = 100 \<and> 1 \<le> gate_roll i v w s \<and> gate_roll i v w s \<le> 100 \<longrightarrow> eligible)"
  using checkChance_roll(1,3) [OF assms] by (simp add: roll_le_chance_def)

theorem gate_eligible_iff_roll_le_chance_witness:
  "fst (checkChance ex_info ''1.2.0'' ex_world (initial (ex_fs_roll ''50''))) = Inr True
   \<and> last (trace (snd (checkChance ex_info ''1.2.0'' ex_world (initial (ex_fs_roll ''50'')))))
        = Log (YouRolled 50)
   \<and> fst (checkChance ex_info ''1.2.0'' ex_world (initial (ex_fs_roll ''51''))) = Inr False
   \<and> last (trace (snd (checkChance ex_info ''1.2.0'' ex_world (initial (ex_fs_roll ''51'')))))
        = Log (YouRolled 51)"
proof -
  have c: "chance_response ex_world = Response 200 (JsonBody (Some 50))"
    by (simp add: ex_world_def)
  have r50: "fst (checkChance ex_info ''1.2.0'' ex_world (initial (ex_fs_roll ''50''))) = Inr True"
    by (simp add: gate_defs ex_defs parse_defs)
  have r51: "fst (checkChance ex_info ''1.2.0'' ex_world (initial (ex_fs_roll ''51''))) = Inr False"
    by (simp add: gate_defs ex_defs parse_defs)
  have g50: "gate_roll ex_info ''1.2.0'' ex_world (initial (ex_fs_roll ''50'')) = 50"
    by (simp add: gate_roll_def cached_roll_def rollCachePath_def gate_defs ex_defs parse_defs)
  have g51: "gate_roll ex_info ''1.2.0'' ex_world (initial (ex_fs_roll ''51'')) = 51"
    by (simp add: gate_roll_def cached_roll_def rollCachePath_def gate_defs ex_defs parse_defs)
  show ?thesis
    using gate_eligible_iff_roll_le_chance [OF c r50] gate_eligible_iff_roll_le_chance [OF c r51]
      r50 r51 g50 g51
    by simp
qed




text \<open>
  C7. When the chance endpoint answers with a status other than 200, the gate returns
  true, whatever the file system holds and whatever would be drawn: it appends the
  request and one log line to the trace, reads and writes no file, and leaves the file
  system as it was.
\<close>

theorem gate_fails_open_on_non_200:
  assumes "chance_response w = Response code body" and "code \<noteq> 200"
  shows "fst (checkChance i v w s) = Inr True
    \<and> fs (snd (checkChance i v w s)) = fs s
    \<and> trace (snd (checkChance i v w s))
        = trace s @ [HttpGet ChanceEndpoint (''/'' @ v @ ''.chance''), Log NoChanceFile]
    \<and> \<not> list_ex is_fs_event (drop (length (trace s)) (trace (snd (checkChance i v w s))))"
  using assms by (simp add: checkChance_def Let_def)

theorem gate_fails_open_on_non_200_witness:
  "fst (checkChance ex_info ''1.2.0'' (ex_world\<lparr>chance_response := Response 404 NotJson\<rparr>)
          (initial (ex_fs_roll ''99''))) = Inr True
   \<and> fs (snd (checkChance ex_info ''1.2.0'' (ex_world\<lparr>chance_response := Response 404 NotJson\<rparr>)
          (initial (ex_fs_roll ''99'')))) = ex_fs_roll ''99''
   \<and> trace (snd (checkChance ex_info ''1.2.0'' (ex_world\<lparr>chance_response := Response 404 NotJson\<rparr>)
          (initial (ex_fs_roll ''99''))))
        = [HttpGet ChanceEndpoint ''/1.2.0.chance'', Log NoChanceFile]
   \<and> \<not> list_ex is_fs_event (drop (length (trace (initial (ex_fs_roll ''99''))))
          (trace (snd (checkChance ex_info ''1.2.0'' (ex_world\<lparr>chance_response := Response 404 NotJson\<rparr>)
             (initial (ex_fs_roll ''99''))))))"
  using gate_fails_open_on_non_200 [of "ex_world\<lparr>chance_response := Response 404 NotJson\<rparr>"
      404 NotJson ex_info "''1.2.0''" "initial (ex_fs_roll ''99'')"]
  by (simp add: ex_world_def initial_def)

text \<open>
  C8. The temp directory exists and the binary endpoint answers 500: the run resolves to
  false, but the file \<open>latest-updater.exe\<close> is in the temp directory and holds the body
  of the error response, whether or not the first \<open>mkdir\<close> of \<open>ensureDir\<close> is done when
  the write stream opens.
\<close>

theorem failed_download_leaves_file_counterexample:
  "fst (module_exports ex_info
          (ex_world_ungated\<lparr>binary_response := Response 500 ''Internal Server Error''\<rparr>)
          (initial ex_fs_temp)) = Resolved False
   \<and> files (fs (snd (module_exports ex_info
          (ex_world_ungated\<lparr>binary_response := Response 500 ''Internal Server Error''\<rparr>)
          (initial ex_fs_temp)))) [''C:'', ''Temp'', ''updater'', ''latest-updater.exe'']
       = Some ''Internal Server Error''
   \<and> files (fs (snd (module_exports ex_info
          (ex_world_ungated\<lparr>binary_response := Response 500 ''Internal Server Error'',
             mkdirs_before_open := 0\<rparr>)
          (initial ex_fs_temp)))) [''C:'', ''Temp'', ''updater'', ''latest-updater.exe'']
       = Some ''Internal Server Error''"
  by (simp add: run_defs gate_defs ex_defs)

text \<open>
  C8, amended. When the binary endpoint answers with a status other than 200, the second
  half of \<open>entry\<close> rejects, the run resolves to false (no exception reaches the caller)
  and no process is spawned. When the rejection is the one for the status, the file
  \<open>latest-updater.exe\<close> is in the temp directory and holds the body of that response.
\<close>

theorem failed_download_resolves_false:
  assumes "binary_response w = Response code body" and "code \<noteq> 200"
  shows "(\<exists>e. fst (launch i v w s) = Rejected e)
    \<and> fst (module_exports i w (initial f)) = Resolved False
    \<and> \<not> spawned (trace (snd (module_exports i w (initial f))))
    \<and> (fst (launch i v w s) = Rejected (FetchFailed code) \<longrightarrow>
          files (fs (snd (launch i v w s))) (tempDir i @ [''latest-updater.exe'']) = Some body)"
proof -
  have "\<not> spawned (trace (initial f))" by (simp add: initial_def spawned_Nil)
  from module_exports_spawned [OF this, of i w]
    module_exports_non_200 [OF assms, of i "initial f"]
    launch_fails_on_non_200 [OF assms, of i v s]
    launch_status_file [OF assms(1), of i v s]
  show ?thesis by simp
qed

theorem failed_download_resolves_false_witness:
  "fst (module_exports ex_info
          (ex_world_ungated\<lparr>binary_response := Response 500 ''Internal Server Error''\<rparr>)
          (initial ex_fs_temp)) = Resolved False
   \<and> \<not> spawned (trace (snd (module_exports ex_info
          (ex_world_ungated\<lparr>binary_response := Response 500 ''Internal Server Error''\<rparr>)
          (initial ex_fs_temp))))
   \<and> requested BinaryEndpoint (trace (snd (module_exports ex_info
          (ex_world_ungated\<lparr>binary_response := Response 500 ''Internal Server Error''\<rparr>)
          (initial ex_fs_temp))))
   \<and> fst (launch ex_info ''1.2.0''
          (ex_world_ungated\<lparr>binary_response := Response 500 ''Internal Server Error''\<rparr>)
          (initial ex_fs_temp)) = Rejected (FetchFailed 500)
   \<and> files (fs (snd (launch ex_info ''1.2.0''
          (ex_world_ungated\<lparr>binary_response := Response 500 ''Internal Server Error''\<rparr>)
          (initial ex_fs_temp)))) [''C:'', ''Temp'', ''updater'', ''latest-updater.exe'']
       = Some ''Internal Server Error''"
proof -
  let ?w = "ex_world_ungated\<lparr>binary_response := Response 500 ''Internal Server Error''\<rparr>"
  have b: "binary_response ?w = Response 500 ''Internal Server Error''" by simp
  have r: "requested BinaryEndpoint (trace (snd (module_exports ex_info ?w (initial ex_fs_temp))))"
    by (simp add: run_defs gate_defs ex_defs requested_simps)
  have l: "fst (launch ex_info ''1.2.0'' ?w (initial ex_fs_temp)) = Rejected (FetchFailed 500)"
    by (simp add: run_defs gate_defs ex_defs)
  have t: "tempDir ex_info @ [''latest-updater.exe'']
             = [''C:'', ''Temp'', ''updater'', ''latest-updater.exe'']"
    by (simp add: ex_info_def)
  from failed_download_resolves_false [OF b, of ex_info "''1.2.0''" "initial ex_fs_temp" ex_fs_temp]
    r l t
  show ?thesis by simp
qed

text \<open>
  C9. \<open>ensureDir(info.tempDir)\<close> is called without \<open>await\<close>. A run whose temp
  directory \<open>C:/Temp/updater\<close> does not exist yet, with one \<open>mkdir\<close> completed when the
  write stream opens: the stream opens its file before \<open>C:/Temp/updater\<close> is created,
  the open fails and the run resolves to false. When both \<open>mkdir\<close> calls complete first,
  as an awaited call would have them, the same run resolves to true.
\<close>

theorem download_starts_before_temp_dir_exists:
  "trace (snd (module_exports ex_info (ex_world_ungated\<lparr>mkdirs_before_open := 1\<rparr>) (initial ex_fs)))
     = [HttpGet VersionEndpoint ''/latest.json'',
        HttpGet ChanceEndpoint ''/1.2.0.chance'',
        Log NoChanceFile,
        WindowCreated,
        FsMkdir [''C:'', ''Temp''],
        FsOpenWrite [''C:'', ''Temp'', ''updater'', ''latest-updater.exe''],
        HttpGet BinaryEndpoint ''/latest-updater.exe'',
        FsMkdir [''C:'', ''Temp'', ''updater''],
        Log (Caught (FsError ENOENT)),
        WindowClosed]
   \<and> fst (module_exports ex_info (ex_world_ungated\<lparr>mkdirs_before_open := 1\<rparr>) (initial ex_fs))
       = Resolved False
   \<and> fst (module_exports ex_info (ex_world_ungated\<lparr>mkdirs_before_open := 2\<rparr>) (initial ex_fs))
       = Resolved True"
  by (simp add: run_defs gate_defs ex_defs)

text \<open>
  C10. When the chance endpoint answers 200 with a body that is not JSON, the gate throws
  a \<open>SyntaxError\<close>: it does not return true as it does for another status. The run then
  resolves to false, asks for no binary and spawns nothing.
\<close>

theorem gate_throws_on_invalid_json:
  assumes "chance_response w = Response 200 NotJson"
  shows "fst (checkChance i v w s) = Inl SyntaxError
    \<and> fst (module_exports i w (initial f)) = Resolved False
    \<and> \<not> requested BinaryEndpoint (trace (snd (module_exports i w (initial f))))
    \<and> \<not> spawned (trace (snd (module_exports i w (initial f))))"
proof -
  have g: "checkChance i v w s = (Inl SyntaxError, emit (HttpGet ChanceEndpoint (''/'' @ v @ ''.chance'')) s)"
    for v s using assms by (simp add: checkChance_def Let_def)
  have "fst (module_exports i w (initial f)) = Resolved False"
    by (simp add: module_exports_def entry_def getVersion_def Let_def g
        split: http.splits version_body.splits sum.splits bool.splits)
  moreover have "\<not> requested BinaryEndpoint (trace (snd (module_exports i w (initial f))))"
    by (simp add: module_exports_def entry_def getVersion_def Let_def g requested_def initial_def
        closeStatusWindow_def
        split: http.splits version_body.splits sum.splits bool.splits)
  moreover have "\<not> spawned (trace (snd (module_exports i w (initial f))))"
    by (simp add: module_exports_def entry_def getVersion_def Let_def g spawned_def initial_def
        closeStatusWindow_def
        split: http.splits version_body.splits sum.splits bool.splits)
  ultimately show ?thesis using g by simp
qed

theorem gate_throws_on_invalid_json_witness:
  "fst (module_exports ex_info (ex_world\<lparr>chance_response := Response 200 NotJson\<rparr>) (initial ex_fs))
     = Resolved False
   \<and> trace (snd (module_exports ex_info (ex_world\<lparr>chance_response := Response 200 NotJson\<rparr>) (initial ex_fs)))
     = [HttpGet VersionEndpoint ''/latest.json'', HttpGet ChanceEndpoint ''/1.2.0.chance'',
        Log (Caught SyntaxError)]"
proof -
  have c: "chance_response (ex_world\<lparr>chance_response := Response 200 NotJson\<rparr>) = Response 200 NotJson"
    by simp
  have "trace (snd (module_exports ex_info (ex_world\<lparr>chance_response := Response 200 NotJson\<rparr>) (initial ex_fs)))
     = [HttpGet VersionEndpoint ''/latest.json'', HttpGet ChanceEndpoint ''/1.2.0.chance'',
        Log (Caught SyntaxError)]"
    by (simp add: module_exports_def entry_def getVersion_def js_falsy_def semver_eq_def semver_gt_def
        semver_compare_def compare_def compareMain_def comparePre_def version_string_def
        closeStatusWindow_def gate_defs ex_defs)
  with gate_throws_on_invalid_json [OF c, of ex_info "''1.2.0''" "initial ex_fs" ex_fs]
  show ?thesis by simp
qed

end
